theory Spec2Isabelle
  imports Complex_Main "HOL-Library.Word"
begin

section \<open>Sprite configuration (src/types.ts)\<close>

text \<open>
  \<^verbatim>\<open>direction: 'row' | 'column'\<close>: \<open>Row\<close> is the horizontal (row-major) traversal,
  \<open>Column\<close> the vertical (column-major) one.
\<close>

datatype direction = Row | Column

text \<open>
  \<^verbatim>\<open>interface SpriteConfig\<close>. The numeric fields are JavaScript numbers that the
  application only ever fills with integers (\<^verbatim>\<open>parseInt\<close> of an input, integer literals,
  an integer-typed detection result), so they are \<open>int\<close>; nothing in the type keeps them
  positive.
\<close>

record SpriteConfig =
  rows :: int
  cols :: int
  totalFrames :: int
  fps :: int
  scale :: int
  transparent :: "string option"
  autoTransparent :: bool
  direction :: direction

text \<open>\<^verbatim>\<open>interface ImageDimensions\<close>: the natural pixel size of the decoded sprite sheet.\<close>

record ImageDimensions =
  width :: int
  height :: int

text \<open>\<^verbatim>\<open>INITIAL_CONFIG\<close> of src/App.tsx.\<close>

definition INITIAL_CONFIG :: SpriteConfig where
  "INITIAL_CONFIG =
     \<lparr>rows = 4, cols = 4, totalFrames = 16, fps = 12, scale = 1, transparent = None,
      autoTransparent = True, direction = Row\<rparr>"

section \<open>JavaScript arithmetic on integers\<close>

text \<open>
  JavaScript's \<^verbatim>\<open>a % b\<close> takes the sign of the dividend (it truncates), whereas \<open>mod\<close> on
  \<open>int\<close> takes the sign of the divisor. \<open>jsRem\<close> is the truncating remainder; it is only
  used with a divisor that is not 0 (where JavaScript yields NaN).
  \<^verbatim>\<open>Math.floor(a / b)\<close> for integers \<open>a\<close> and \<open>b \<noteq> 0\<close> is the floored quotient, which is
  \<open>a div b\<close> on \<open>int\<close>.
\<close>

definition jsRem :: "int \<Rightarrow> int \<Rightarrow> int" where
  "jsRem a b = sgn a * (\<bar>a\<bar> mod \<bar>b\<bar>)"


section \<open>Grid addressing as each consumer computes it\<close>

text \<open>
  The exporter (\<^verbatim>\<open>generateGif\<close>, src/utils/gifBuilder.ts) computes the cell of sequence
  index \<open>i\<close> inside its loop body:
  \<^verbatim>\<open>
  if (config.direction === 'column') {
      row = i % config.rows;
      col = Math.floor(i / config.rows);
  } else {
      col = i % config.cols;
      row = Math.floor(i / config.cols);
  }
  \<close>
  \<open>exportCell\<close> returns the pair \<open>(row, col)\<close>.
\<close>

definition exportCell :: "SpriteConfig \<Rightarrow> int \<Rightarrow> int \<times> int" where
  "exportCell config i =
     (if direction config = Column
      then (jsRem i (rows config), i div rows config)
      else (i div cols config, jsRem i (cols config)))"

text \<open>
  The grid overlay (\<^verbatim>\<open>renderGridOverlay\<close> of the sprite canvas component) computes the
  sequence index of a visual cell:
  \<^verbatim>\<open>
  if (config.direction === 'column') {
    sequenceIndex = visualCol * config.rows + visualRow;
  } else {
    sequenceIndex = visualRow * config.cols + visualCol;
  }
  \<close>
\<close>

definition sequenceIndex :: "SpriteConfig \<Rightarrow> int \<Rightarrow> int \<Rightarrow> int" where
  "sequenceIndex config visualRow visualCol =
     (if direction config = Column
      then visualCol * rows config + visualRow
      else visualRow * cols config + visualCol)"

text \<open>
  One overlay cell, the body of the \<^verbatim>\<open>map\<close> callback: the visual position of cell \<open>i\<close>
  in reading order, its sequence index, and \<^verbatim>\<open>isActive = sequenceIndex < config.totalFrames\<close>.
\<close>

definition isActive :: "SpriteConfig \<Rightarrow> int \<Rightarrow> bool" where
  "isActive config i =
     (let visualRow = i div cols config;
          visualCol = jsRem i (cols config)
      in sequenceIndex config visualRow visualCol < totalFrames config)"

text \<open>
  \<^verbatim>\<open>renderGridOverlay\<close>: nothing is rendered (\<^verbatim>\<open>null\<close>, here \<open>None\<close>) without an image, with
  a non-positive grid dimension or before the image has a rendered width; otherwise one
  cell per element of \<^verbatim>\<open>Array.from({ length: config.rows * config.cols })\<close>, each either
  active or dimmed.
\<close>

definition renderGridOverlay :: "bool \<Rightarrow> int \<Rightarrow> SpriteConfig \<Rightarrow> bool list option" where
  "renderGridOverlay hasImage renderedWidth config =
     (if \<not> hasImage \<or> cols config \<le> 0 \<or> rows config \<le> 0 \<or> renderedWidth = 0 then None
      else Some (map (isActive config) [0 .. rows config * cols config - 1]))"

section \<open>JavaScript numbers\<close>

text \<open>
  A JavaScript number that need not be an integer: a finite value or one of
  \<^verbatim>\<open>Infinity\<close>, \<^verbatim>\<open>-Infinity\<close>, \<^verbatim>\<open>NaN\<close>. A finite value is written as a rational and
  \<open>Num q\<close> stands for the double nearest to \<open>q\<close>; the sign of a zero is not kept (no
  number computed here is divided by).
\<close>

datatype jsnum = Num rat | Infinity | NegInfinity | NaN

text \<open>\<^verbatim>\<open>a / b\<close> for integers \<open>a\<close> and \<open>b\<close>.\<close>

definition jsQuot :: "int \<Rightarrow> int \<Rightarrow> jsnum" where
  "jsQuot a b =
     (if b \<noteq> 0 then Num (of_int a / of_int b)
      else if 0 < a then Infinity else if a < 0 then NegInfinity else NaN)"

text \<open>
  \<^verbatim>\<open>x * y\<close>: \<^verbatim>\<open>NaN\<close> is contagious and 0 times an infinity is \<^verbatim>\<open>NaN\<close>. The product
  of two finite values is the product of the two rationals; a caller that needs the
  integer part of a product makes the operands doubles first (\<open>asDouble\<close> below).
\<close>

fun jsTimes :: "jsnum \<Rightarrow> jsnum \<Rightarrow> jsnum" where
  "jsTimes NaN y = NaN"
| "jsTimes x NaN = NaN"
| "jsTimes (Num a) (Num b) = Num (a * b)"
| "jsTimes (Num a) Infinity = (if 0 < a then Infinity else if a < 0 then NegInfinity else NaN)"
| "jsTimes (Num a) NegInfinity = (if 0 < a then NegInfinity else if a < 0 then Infinity else NaN)"
| "jsTimes Infinity (Num b) = (if 0 < b then Infinity else if b < 0 then NegInfinity else NaN)"
| "jsTimes NegInfinity (Num b) = (if 0 < b then NegInfinity else if b < 0 then Infinity else NaN)"
| "jsTimes Infinity Infinity = Infinity"
| "jsTimes Infinity NegInfinity = NegInfinity"
| "jsTimes NegInfinity Infinity = NegInfinity"
| "jsTimes NegInfinity NegInfinity = Infinity"

text \<open>\<^verbatim>\<open>x >= n\<close> for an integer \<open>n\<close>: every comparison with \<^verbatim>\<open>NaN\<close> is false.\<close>

fun jsGe :: "jsnum \<Rightarrow> int \<Rightarrow> bool" where
  "jsGe (Num q) n = (of_int n \<le> q)"
| "jsGe Infinity n = True"
| "jsGe NegInfinity n = False"
| "jsGe NaN n = False"

subsection \<open>Rounding to a double\<close>

text \<open>
  Where the integer part of a computed number is taken, the double itself matters and
  not the rational it approximates. \<open>roundDouble\<close> rounds a rational to the nearest
  number with a significand of 53 binary digits, a tie going to the even significand, as
  IEEE 754 arithmetic does for every result in the normal range (magnitudes from
  \<open>2^-1022\<close> to \<open>2^1024\<close>; overflow and subnormal numbers are not represented).
\<close>

text \<open>The number of binary digits of a natural number.\<close>

fun bitLength :: "nat \<Rightarrow> nat" where
  "bitLength n = (if n = 0 then 0 else Suc (bitLength (n div 2)))"

declare bitLength.simps [simp del]

definition pow2 :: "int \<Rightarrow> rat" where
  "pow2 e = (if 0 \<le> e then 2 ^ nat e else 1 / 2 ^ nat (- e))"

text \<open>For \<open>x > 0\<close>, the exponent \<open>e\<close> with \<open>2^e \<le> x < 2^(e+1)\<close>.\<close>

definition binaryExponent :: "rat \<Rightarrow> int" where
  "binaryExponent x =
     (if 1 \<le> x then int (bitLength (nat \<lfloor>x\<rfloor>)) - 1
      else - int (bitLength (nat (\<lceil>1 / x\<rceil> - 1))))"

definition roundHalfEven :: "rat \<Rightarrow> int" where
  "roundHalfEven m =
     (let n = \<lfloor>m\<rfloor>; r = m - of_int n
      in if r < 1 / 2 then n else if 1 / 2 < r then n + 1 else if even n then n else n + 1)"

definition roundDouble :: "rat \<Rightarrow> rat" where
  "roundDouble x =
     (if x = 0 then 0
      else let u = pow2 (binaryExponent \<bar>x\<bar> - 52)
           in sgn x * of_int (roundHalfEven (\<bar>x\<bar> / u)) * u)"

text \<open>The double a number stands for.\<close>

fun asDouble :: "jsnum \<Rightarrow> jsnum" where
  "asDouble (Num q) = Num (roundDouble q)"
| "asDouble x = x"

section \<open>The export pipeline (generateGif, src/utils/gifBuilder.ts)\<close>

text \<open>
  \<^verbatim>\<open>const frameWidth = dimensions.width / config.cols\<close>,
  \<^verbatim>\<open>const frameHeight = dimensions.height / config.rows\<close> and
  \<^verbatim>\<open>const delay = 1000 / config.fps\<close>.
\<close>

definition frameWidth :: "SpriteConfig \<Rightarrow> ImageDimensions \<Rightarrow> jsnum" where
  "frameWidth config dimensions = jsQuot (width dimensions) (cols config)"

definition frameHeight :: "SpriteConfig \<Rightarrow> ImageDimensions \<Rightarrow> jsnum" where
  "frameHeight config dimensions = jsQuot (height dimensions) (rows config)"

definition frameDelay :: "SpriteConfig \<Rightarrow> jsnum" where
  "frameDelay config = jsQuot 1000 (fps config)"

text \<open>
  The size of the export canvas. The code assigns
  \<^verbatim>\<open>canvas.width = frameWidth * config.scale\<close> and
  \<^verbatim>\<open>canvas.height = frameHeight * config.scale\<close> and from then on reads
  \<^verbatim>\<open>canvas.width\<close> and \<^verbatim>\<open>canvas.height\<close> back. A canvas element keeps each as an
  unsigned 32-bit integer: of the assigned double the integer part is taken, modulo
  \<open>2^32\<close>; \<^verbatim>\<open>NaN\<close> and the infinities give 0; a result above \<open>2^31 - 1\<close> is
  replaced by the default of the attribute (300 for the width, 150 for the height).
\<close>

definition canvasDimension :: "int \<Rightarrow> jsnum \<Rightarrow> int" where
  "canvasDimension dflt x =
     (case asDouble x of
        Num d \<Rightarrow>
          (let n = (if 0 \<le> d then \<lfloor>d\<rfloor> else \<lceil>d\<rceil>) mod 4294967296
           in if n \<le> 2147483647 then n else dflt)
      | _ \<Rightarrow> 0)"

definition canvasWidth :: "SpriteConfig \<Rightarrow> ImageDimensions \<Rightarrow> int" where
  "canvasWidth config dimensions =
     canvasDimension 300
       (jsTimes (asDouble (frameWidth config dimensions)) (Num (of_int (scale config))))"

definition canvasHeight :: "SpriteConfig \<Rightarrow> ImageDimensions \<Rightarrow> int" where
  "canvasHeight config dimensions =
     canvasDimension 150
       (jsTimes (asDouble (frameHeight config dimensions)) (Num (of_int (scale config))))"

text \<open>
  How the canvas is prepared before the slice is drawn: filled with the key colour
  (\<^verbatim>\<open>fillRect\<close> with \<^verbatim>\<open>'#ff00ff'\<close>) when \<^verbatim>\<open>config.autoTransparent\<close>, cleared otherwise.
\<close>

datatype background = KeyFill | Cleared

text \<open>
  What one call \<^verbatim>\<open>gif.addFrame(ctx, { copy: true, delay: delay })\<close> hands to the encoder.
  The pixels are produced by the browser's canvas, so a frame is described by what
  determines them: the preparation of the canvas, the source rectangle of
  \<^verbatim>\<open>drawImage\<close>, the pixel size of the canvas the slice is stretched to, and whether
  \<^verbatim>\<open>applyChromaKey\<close> ran. \<open>seqIndex\<close> is the value of the loop counter in the iteration
  that submitted the frame; the encoder does not receive it, it is kept to state the
  order of submission.
\<close>

record frame =
  seqIndex :: int
  prepared :: background
  srcX :: jsnum
  srcY :: jsnum
  srcW :: jsnum
  srcH :: jsnum
  frameW :: int
  frameH :: int
  chromaKeyed :: bool
  delay :: jsnum

text \<open>
  The encoder object: the options of \<^verbatim>\<open>new GIF(gifOptions)\<close> that depend on the request,
  and the frames added so far, in order. \<^verbatim>\<open>KEY_COLOR_HEX = 0xff00ff\<close>.
\<close>

record GIF =
  gifWidth :: jsnum
  gifHeight :: jsnum
  gifTransparent :: "int option"
  frames :: "frame list"

definition KEY_COLOR_HEX :: int where
  "KEY_COLOR_HEX = 16711935"

text \<open>
  The row and the column of the loop body as JavaScript numbers. With a divisor that is
  not 0 they are the integers of \<open>exportCell\<close>. With a divisor of 0, \<^verbatim>\<open>i % 0\<close> is
  \<^verbatim>\<open>NaN\<close> and \<^verbatim>\<open>Math.floor(i / 0)\<close> is \<^verbatim>\<open>i / 0\<close> itself, \<^verbatim>\<open>NaN\<close> for \<open>i = 0\<close> and
  \<^verbatim>\<open>Infinity\<close> for \<open>i > 0\<close>.
\<close>

definition loopCell :: "SpriteConfig \<Rightarrow> int \<Rightarrow> jsnum \<times> jsnum" where
  "loopCell config i =
     (if direction config = Column
      then (if rows config = 0 then (NaN, jsQuot i 0)
            else (Num (of_int (fst (exportCell config i))),
                  Num (of_int (snd (exportCell config i)))))
      else (if cols config = 0 then (jsQuot i 0, NaN)
            else (Num (of_int (fst (exportCell config i))),
                  Num (of_int (snd (exportCell config i))))))"

text \<open>
  The safety check of the loop body,
  \<^verbatim>\<open>if (row >= config.rows || col >= config.cols) continue;\<close>
\<close>

definition skipped :: "SpriteConfig \<Rightarrow> int \<Rightarrow> bool" where
  "skipped config i =
     (case loopCell config i of (row, col) \<Rightarrow> jsGe row (rows config) \<or> jsGe col (cols config))"

text \<open>
  Steps 1 to 3 of the loop body and the arguments of \<^verbatim>\<open>addFrame\<close>, for an index that
  passed the safety check:
  \<^verbatim>\<open>drawImage(image, col * frameWidth, row * frameHeight, frameWidth, frameHeight,
  0, 0, canvas.width, canvas.height)\<close>.
\<close>

definition renderFrame :: "SpriteConfig \<Rightarrow> ImageDimensions \<Rightarrow> int \<Rightarrow> frame" where
  "renderFrame config dimensions i =
     (case loopCell config i of (row, col) \<Rightarrow>
        \<lparr>seqIndex = i,
         prepared = (if autoTransparent config then KeyFill else Cleared),
         srcX = jsTimes col (frameWidth config dimensions),
         srcY = jsTimes row (frameHeight config dimensions),
         srcW = frameWidth config dimensions,
         srcH = frameHeight config dimensions,
         frameW = canvasWidth config dimensions,
         frameH = canvasHeight config dimensions,
         chromaKeyed = autoTransparent config,
         delay = frameDelay config\<rparr>)"

text \<open>
  \<^verbatim>\<open>for (let i = 0; i < config.totalFrames; i++) { ... }\<close>, with the list of frames added
  to the encoder so far as the state.
\<close>

function exportLoop :: "SpriteConfig \<Rightarrow> ImageDimensions \<Rightarrow> int \<Rightarrow> frame list \<Rightarrow> frame list" where
  "exportLoop config dimensions i submitted =
     (if i < totalFrames config
      then exportLoop config dimensions (i + 1)
             (if skipped config i then submitted
              else submitted @ [renderFrame config dimensions i])
      else submitted)"
  by pat_completeness auto
termination
  by (relation "measure (\<lambda>(config, dimensions, i, submitted). nat (totalFrames config - i))")
    auto

text \<open>The failure of an export: \<^verbatim>\<open>reject("Could not create canvas context")\<close>.\<close>

datatype export_error = NoCanvasContext

text \<open>
  \<^verbatim>\<open>generateGif\<close> up to the call of \<^verbatim>\<open>gif.render()\<close>: the encoder as configured and filled.
  \<open>hasContext\<close> tells whether \<^verbatim>\<open>canvas.getContext('2d', ...)\<close> returned a context.
\<close>

definition generateGif :: "bool \<Rightarrow> SpriteConfig \<Rightarrow> ImageDimensions \<Rightarrow> export_error + GIF" where
  "generateGif hasContext config dimensions =
     (let gif = \<lparr>gifWidth = jsTimes (jsQuot (width dimensions) (cols config))
                                     (Num (of_int (scale config))),
                 gifHeight = jsTimes (jsQuot (height dimensions) (rows config))
                                      (Num (of_int (scale config))),
                 gifTransparent = (if autoTransparent config then Some KEY_COLOR_HEX else None),
                 frames = []\<rparr>
      in if \<not> hasContext then Inl NoCanvasContext
         else Inr (gif\<lparr>frames := exportLoop config dimensions 0 (frames gif)\<rparr>))"

text \<open>The frames an export handed to the encoder; none when the export failed.\<close>

fun submittedFrames :: "export_error + GIF \<Rightarrow> frame list" where
  "submittedFrames (Inl e) = []"
| "submittedFrames (Inr gif) = frames gif"

text \<open>
  The grid-spec invariant of the specification: rows and cols at least 1 and
  \<open>1 \<le> totalFrames \<le> rows * cols\<close>.
\<close>

definition validGrid :: "SpriteConfig \<Rightarrow> bool" where
  "validGrid config \<longleftrightarrow>
     1 \<le> rows config \<and> 1 \<le> cols config \<and> 1 \<le> totalFrames config
     \<and> totalFrames config \<le> rows config * cols config"

section \<open>The chroma-key synthesizer (applyChromaKey, src/utils/gifBuilder.ts)\<close>

text \<open>
  The pixel buffer is the \<^verbatim>\<open>data\<close> of an \<^verbatim>\<open>ImageData\<close>: a flat array of bytes, four per
  pixel in the order red, green, blue, alpha, the pixel at local coordinate (0,0) first.
\<close>

type_synonym byte = "8 word"

text \<open>\<^verbatim>\<open>const KEY_COLOR_RGB = [255, 0, 255]\<close> and \<^verbatim>\<open>const tolerance = 20\<close>.\<close>

definition KEY_COLOR_RGB :: "byte list" where
  "KEY_COLOR_RGB = [255, 0, 255]"

definition tolerance :: int where
  "tolerance = 20"

text \<open>
  The test of the loop body, on the numeric values of the bytes:
  \<^verbatim>\<open>
  (Math.abs(r - rBg) < tolerance &&
   Math.abs(g - gBg) < tolerance &&
   Math.abs(b - bBg) < tolerance) || a < 10
  \<close>
\<close>

definition withinTolerance :: "byte \<Rightarrow> byte \<Rightarrow> byte \<Rightarrow> byte \<Rightarrow> byte \<Rightarrow> byte \<Rightarrow> bool" where
  "withinTolerance rBg gBg bBg r g b \<longleftrightarrow>
     \<bar>uint r - uint rBg\<bar> < tolerance \<and>
     \<bar>uint g - uint gBg\<bar> < tolerance \<and>
     \<bar>uint b - uint bBg\<bar> < tolerance"

definition matchesBackground ::
  "byte \<Rightarrow> byte \<Rightarrow> byte \<Rightarrow> byte \<Rightarrow> byte \<Rightarrow> byte \<Rightarrow> byte \<Rightarrow> bool" where
  "matchesBackground rBg gBg bBg r g b a \<longleftrightarrow>
     withinTolerance rBg gBg bBg r g b \<or> uint a < 10"

text \<open>
  \<^verbatim>\<open>for (let i = 0; i < data.length; i += 4) { ... }\<close>. Iteration \<open>i\<close> reads and writes the
  four bytes at \<open>i .. i + 3\<close> only, and the reference colour was read before the loop, so
  the loop is a recursion over the buffer four bytes at a time. A buffer of
  \<^verbatim>\<open>ImageData\<close> has a length that is a multiple of 4. On a shorter rest the reads past the
  end give \<^verbatim>\<open>undefined\<close> and every comparison with it is false: with three bytes left
  only the alpha test is lost and the write of the alpha byte falls outside the array
  (second equation), with fewer nothing is written (third equation).
\<close>

fun keyLoop :: "byte \<Rightarrow> byte \<Rightarrow> byte \<Rightarrow> byte list \<Rightarrow> byte list" where
  "keyLoop rBg gBg bBg (r # g # b # a # rest) =
     (if matchesBackground rBg gBg bBg r g b a
      then KEY_COLOR_RGB ! 0 # KEY_COLOR_RGB ! 1 # KEY_COLOR_RGB ! 2 # 255 # keyLoop rBg gBg bBg rest
      else r # g # b # a # keyLoop rBg gBg bBg rest)"
| "keyLoop rBg gBg bBg [r, g, b] =
     (if withinTolerance rBg gBg bBg r g b
      then [KEY_COLOR_RGB ! 0, KEY_COLOR_RGB ! 1, KEY_COLOR_RGB ! 2]
      else [r, g, b])"
| "keyLoop rBg gBg bBg rest = rest"

text \<open>
  \<^verbatim>\<open>applyChromaKey\<close>, from the buffer read by \<^verbatim>\<open>getImageData\<close> to the buffer written back
  by \<^verbatim>\<open>putImageData\<close>: the top-left pixel is sampled as the background reference, then
  the loop runs. With fewer than three bytes a channel of the reference is \<^verbatim>\<open>undefined\<close>
  and the loop writes nothing.
\<close>

definition applyChromaKey :: "byte list \<Rightarrow> byte list" where
  "applyChromaKey data =
     (case data of
        rBg # gBg # bBg # rest \<Rightarrow> keyLoop rBg gBg bBg data
      | _ \<Rightarrow> data)"

text \<open>The four bytes of pixel \<open>k\<close> of a buffer.\<close>

definition pixelAt :: "byte list \<Rightarrow> nat \<Rightarrow> byte list" where
  "pixelAt data k = take 4 (drop (4 * k) data)"

section \<open>Configuration updates (updateConfig, src/App.tsx)\<close>

text \<open>
  A call \<^verbatim>\<open>updateConfig(key, value)\<close>: a key of \<^verbatim>\<open>SpriteConfig\<close> together with a value of
  the type the interface declares for that key.
\<close>

datatype update =
    Rows int
  | Cols int
  | TotalFrames int
  | Fps int
  | Scale int
  | Transparent "string option"
  | AutoTransparent bool
  | Direction direction

text \<open>\<^verbatim>\<open>{ ...prev, [key]: value }\<close>\<close>

fun assign :: "update \<Rightarrow> SpriteConfig \<Rightarrow> SpriteConfig" where
  "assign (Rows v) prev = prev\<lparr>rows := v\<rparr>"
| "assign (Cols v) prev = prev\<lparr>cols := v\<rparr>"
| "assign (TotalFrames v) prev = prev\<lparr>totalFrames := v\<rparr>"
| "assign (Fps v) prev = prev\<lparr>fps := v\<rparr>"
| "assign (Scale v) prev = prev\<lparr>scale := v\<rparr>"
| "assign (Transparent v) prev = prev\<lparr>transparent := v\<rparr>"
| "assign (AutoTransparent v) prev = prev\<lparr>autoTransparent := v\<rparr>"
| "assign (Direction v) prev = prev\<lparr>direction := v\<rparr>"

text \<open>\<^verbatim>\<open>key === 'rows' || key === 'cols'\<close>\<close>

fun isGridKey :: "update \<Rightarrow> bool" where
  "isGridKey (Rows v) = True"
| "isGridKey (Cols v) = True"
| "isGridKey u = False"

text \<open>
  The state transition of \<^verbatim>\<open>updateConfig\<close>:
  \<^verbatim>\<open>
  const next = { ...prev, [key]: value };
  if (key === 'rows' || key === 'cols') {
     if (prev.totalFrames === prev.rows * prev.cols) {
        next.totalFrames = next.rows * next.cols;
     }
  }
  return next;
  \<close>
\<close>

definition updateConfig :: "update \<Rightarrow> SpriteConfig \<Rightarrow> SpriteConfig" where
  "updateConfig u prev =
     (let next = assign u prev
      in if isGridKey u
         then (if totalFrames prev = rows prev * cols prev
               then next\<lparr>totalFrames := rows next * cols next\<rparr>
               else next)
         else next)"

text \<open>
  The rows and cols inputs: \<^verbatim>\<open>updateConfig('rows', parseInt(e.target.value) || 1)\<close>.
  The argument is the result of \<^verbatim>\<open>parseInt\<close>, \<open>None\<close> for \<^verbatim>\<open>NaN\<close>; \<^verbatim>\<open>NaN\<close> and 0 are
  falsy and become 1, every other integer passes.
\<close>

definition orOne :: "int option \<Rightarrow> int" where
  "orOne parsed = (case parsed of None \<Rightarrow> 1 | Some v \<Rightarrow> if v = 0 then 1 else v)"

definition onRowsChange :: "int option \<Rightarrow> SpriteConfig \<Rightarrow> SpriteConfig" where
  "onRowsChange parsed = updateConfig (Rows (orOne parsed))"

definition onColsChange :: "int option \<Rightarrow> SpriteConfig \<Rightarrow> SpriteConfig" where
  "onColsChange parsed = updateConfig (Cols (orOne parsed))"

section \<open>The live preview player (PreviewPlayer)\<close>

text \<open>
  The state of the component: \<^verbatim>\<open>isPlaying\<close> and \<^verbatim>\<open>currentFrame\<close> are its two state
  variables (\<open>None\<close> stands for \<^verbatim>\<open>NaN\<close>); \<open>scheduled\<close> tells whether a callback requested
  with \<^verbatim>\<open>requestAnimationFrame\<close> is pending. The frame drawn on the canvas is always the
  one of \<open>currentFrame\<close>: \<^verbatim>\<open>animate\<close> sets both from the same \<^verbatim>\<open>frameIndex\<close>.
\<close>

record PreviewPlayer =
  isPlaying :: bool
  currentFrame :: "int option"
  scheduled :: bool

text \<open>
  \<^verbatim>\<open>
  const frameInterval = 1000 / config.fps;
  const frameIndex = Math.floor(time / frameInterval) % totalFrames;
  \<close>
  \<open>time\<close> is the timestamp the browser passes to the callback, a double counting the
  milliseconds since the page's time origin. Both quotients are doubles, and the floor is
  taken of the second double. With \<open>fps = 0\<close> the interval is \<^verbatim>\<open>Infinity\<close> and the
  quotient 0; with \<open>totalFrames = 0\<close> the remainder is \<^verbatim>\<open>NaN\<close>.
\<close>

definition frameIndexAt :: "SpriteConfig \<Rightarrow> rat \<Rightarrow> int option" where
  "frameIndexAt config time =
     (let slot = (if fps config = 0 then 0
                  else \<lfloor>roundDouble (time / roundDouble (1000 / of_int (fps config)))\<rfloor>)
      in if totalFrames config = 0 then None else Some (jsRem slot (totalFrames config)))"

text \<open>
  One run of the callback \<^verbatim>\<open>animate(time)\<close> with the canvas present: it shows the frame of
  \<open>time\<close> and requests the next callback if the player is playing.
\<close>

definition animate :: "SpriteConfig \<Rightarrow> rat \<Rightarrow> PreviewPlayer \<Rightarrow> PreviewPlayer" where
  "animate config time p =
     p\<lparr>currentFrame := frameIndexAt config time, scheduled := isPlaying p\<rparr>"

text \<open>
  The play/pause button, \<^verbatim>\<open>setIsPlaying(!isPlaying)\<close>, followed by the effect it triggers
  (with an image loaded): the cleanup cancels the pending callback, and a new one is
  requested only \<^verbatim>\<open>if (isPlaying)\<close>.
\<close>

definition togglePlaying :: "PreviewPlayer \<Rightarrow> PreviewPlayer" where
  "togglePlaying p = p\<lparr>isPlaying := \<not> isPlaying p, scheduled := \<not> isPlaying p\<rparr>"

text \<open>The component as mounted: \<^verbatim>\<open>useState(true)\<close>, \<^verbatim>\<open>useState(0)\<close>, first callback requested.\<close>

definition initialPlayer :: PreviewPlayer where
  "initialPlayer = \<lparr>isPlaying = True, currentFrame = Some 0, scheduled = True\<rparr>"

section \<open>Arithmetic facts\<close>

lemma jsRem_nonneg: "0 \<le> a \<Longrightarrow> 0 < b \<Longrightarrow> jsRem a b = a mod b"
  by (cases "a = 0") (simp_all add: jsRem_def)


section \<open>Facts about rounding to a double\<close>

lemma bitLength_le: "n < 2 ^ k \<Longrightarrow> bitLength n \<le> k"
proof (induction k arbitrary: n)
  case 0
  then show ?case
    by (simp add: bitLength.simps)
next
  case (Suc k)
  then have "n div 2 < 2 ^ k"
    by simp
  then have "bitLength (n div 2) \<le> k"
    by (rule Suc.IH)
  then show ?case
    by (subst bitLength.simps) simp
qed

lemma pow2_pos: "0 < pow2 e"
  by (simp add: pow2_def)

lemma pow2_nonpos: "d \<le> 0 \<Longrightarrow> pow2 d = 1 / 2 ^ nat (- d)"
  by (cases "d = 0") (simp_all add: pow2_def)

lemma roundHalfEven_of_int: "roundHalfEven (of_int n) = n"
  by (simp add: roundHalfEven_def)

lemma roundHalfEven_nonneg: "0 \<le> m \<Longrightarrow> 0 \<le> roundHalfEven m"
  by (simp add: roundHalfEven_def Let_def)

lemma roundDouble_nonneg:
  assumes "0 \<le> x"
  shows "0 \<le> roundDouble x"
proof (cases "x = 0")
  case True
  then show ?thesis
    by (simp add: roundDouble_def)
next
  case False
  with assms have "0 < x"
    by simp
  then have "0 \<le> \<bar>x\<bar> / pow2 (binaryExponent \<bar>x\<bar> - 52)"
    using pow2_pos [of "binaryExponent \<bar>x\<bar> - 52"] by simp
  then have "0 \<le> roundHalfEven (\<bar>x\<bar> / pow2 (binaryExponent \<bar>x\<bar> - 52))"
    by (rule roundHalfEven_nonneg)
  with \<open>0 < x\<close> show ?thesis
    using pow2_pos [of "binaryExponent \<bar>x\<bar> - 52"]
    by (simp add: roundDouble_def Let_def)
qed

lemma roundDouble_of_int:
  assumes "\<bar>n\<bar> < 2 ^ 53"
  shows "roundDouble (of_int n) = of_int n"
proof (cases "n = 0")
  case True
  then show ?thesis
    by (simp add: roundDouble_def)
next
  case False
  let ?x = "\<bar>of_int n :: rat\<bar>"
  have x: "?x = of_int \<bar>n\<bar>"
    by simp
  from False have one: "1 \<le> \<bar>n\<bar>"
    by simp
  then have "(1::rat) \<le> of_int \<bar>n\<bar>"
    by (simp only: of_int_1_le_iff)
  then have ge: "1 \<le> ?x"
    by (simp only: x)
  have fl: "\<lfloor>?x\<rfloor> = \<bar>n\<bar>"
    by (simp only: x floor_of_int)
  have e: "binaryExponent ?x = int (bitLength (nat \<bar>n\<bar>)) - 1"
    unfolding binaryExponent_def using ge fl by (simp only: if_True)
  from assms have "nat \<bar>n\<bar> < 2 ^ 53"
    by (simp add: nat_less_iff)
  then have "bitLength (nat \<bar>n\<bar>) \<le> 53"
    by (rule bitLength_le)
  then have d: "binaryExponent ?x - 52 \<le> 0"
    by (simp add: e)
  define j where "j = nat (- (binaryExponent ?x - 52))"
  from d have u: "pow2 (binaryExponent ?x - 52) = 1 / 2 ^ j"
    by (simp add: pow2_nonpos j_def)
  have "?x / (1 / 2 ^ j) = of_int (\<bar>n\<bar> * 2 ^ j)"
    by simp
  then have r: "roundHalfEven (?x / (1 / 2 ^ j)) = \<bar>n\<bar> * 2 ^ j"
    by (simp only: roundHalfEven_of_int)
  have "roundDouble (of_int n)
          = sgn (of_int n) * of_int (roundHalfEven (?x / pow2 (binaryExponent ?x - 52)))
              * pow2 (binaryExponent ?x - 52)"
    using False by (simp add: roundDouble_def Let_def)
  also have "\<dots> = sgn (of_int n) * of_int (roundHalfEven (?x / (1 / 2 ^ j))) * (1 / 2 ^ j)"
    by (simp only: u)
  also have "\<dots> = sgn (of_int n) * of_int (\<bar>n\<bar> * 2 ^ j) * (1 / 2 ^ j)"
    by (simp only: r)
  also have "\<dots> = sgn (of_int n) * of_int \<bar>n\<bar>"
    by simp
  also have "\<dots> = sgn (of_int n) * ?x"
    by (simp only: x)
  also have "\<dots> = of_int n"
    by (rule sgn_mult_abs)
  finally show ?thesis .
qed

section \<open>Facts about the export loop\<close>

lemmas exportLoop_unfold = exportLoop.simps

declare exportLoop.simps [simp del]

lemma exportLoop_filter:
  "exportLoop config dimensions i submitted =
     submitted @ map (renderFrame config dimensions)
       (filter (\<lambda>j. \<not> skipped config j) [i .. totalFrames config - 1])"
proof (induction config dimensions i submitted rule: exportLoop.induct)
  case (1 config dimensions i submitted)
  show ?case
  proof (cases "i < totalFrames config")
    case True
    then have "[i .. totalFrames config - 1] = i # [i + 1 .. totalFrames config - 1]"
      by (simp add: upto_rec1)
    with True "1.IH" show ?thesis
      by (subst exportLoop_unfold) simp
  next
    case False
    then show ?thesis
      by (subst exportLoop_unfold) simp
  qed
qed

lemma loopCell_finite:
  assumes "rows config \<noteq> 0" and "cols config \<noteq> 0"
  shows "loopCell config i =
           (Num (of_int (fst (exportCell config i))), Num (of_int (snd (exportCell config i))))"
  using assms by (simp add: loopCell_def)

lemma skipped_finite:
  assumes "rows config \<noteq> 0" and "cols config \<noteq> 0"
  shows "skipped config i \<longleftrightarrow>
           rows config \<le> fst (exportCell config i) \<or> cols config \<le> snd (exportCell config i)"
  using assms by (simp add: skipped_def loopCell_finite)



lemma seqIndex_renderFrame: "seqIndex (renderFrame config dimensions i) = i"
  by (simp add: renderFrame_def split: prod.split)


section \<open>Grid addressing round trip\<close>

text \<open>
  Claim C1. For rows and cols at least 1 and every index \<open>i\<close> with
  \<open>0 \<le> i < rows * cols\<close>, the cell the exporter computes for \<open>i\<close>, fed to the overlay's
  cell-to-index computation, gives \<open>i\<close> again, in both traversal directions.
\<close>

theorem export_overlay_round_trip:
  assumes "1 \<le> rows config" and "1 \<le> cols config"
    and "0 \<le> i" and "i < rows config * cols config"
  shows "sequenceIndex config (fst (exportCell config i)) (snd (exportCell config i)) = i"
  using assms by (simp add: sequenceIndex_def exportCell_def jsRem_nonneg)

theorem export_overlay_round_trip_witness:
  "1 \<le> rows (INITIAL_CONFIG\<lparr>rows := 2, cols := 3, direction := Column\<rparr>)
   \<and> 1 \<le> cols (INITIAL_CONFIG\<lparr>rows := 2, cols := 3, direction := Column\<rparr>)
   \<and> (0::int) \<le> 4
   \<and> 4 < rows (INITIAL_CONFIG\<lparr>rows := 2, cols := 3, direction := Column\<rparr>)
           * cols (INITIAL_CONFIG\<lparr>rows := 2, cols := 3, direction := Column\<rparr>)
   \<and> exportCell (INITIAL_CONFIG\<lparr>rows := 2, cols := 3, direction := Column\<rparr>) 4 = (0, 2)
   \<and> sequenceIndex (INITIAL_CONFIG\<lparr>rows := 2, cols := 3, direction := Column\<rparr>) 0 2 = 4"
proof -
  let ?c = "INITIAL_CONFIG\<lparr>rows := 2, cols := 3, direction := Column\<rparr>"
  have h: "1 \<le> rows ?c" "1 \<le> cols ?c" "(0::int) \<le> 4" "4 < rows ?c * cols ?c"
    by (simp_all add: INITIAL_CONFIG_def)
  have cell: "exportCell ?c 4 = (0, 2)"
    by (simp add: exportCell_def jsRem_def INITIAL_CONFIG_def)
  from export_overlay_round_trip [OF h]
  have "sequenceIndex ?c (fst (exportCell ?c 4)) (snd (exportCell ?c 4)) = 4" .
  with h cell show ?thesis
    by simp
qed

section \<open>Export: number of frames\<close>




text \<open>
  Outside the invariant the safety check does fire. The configuration below is reached
  from the initial one by selecting 14 frames and then setting rows to 3: the export
  hands over the 12 frames of the grid and skips the indices 12 and 13.
\<close>

lemma export_skips_out_of_grid:
  "updateConfig (Rows 3) (updateConfig (TotalFrames 14) INITIAL_CONFIG)
     = INITIAL_CONFIG\<lparr>rows := 3, totalFrames := 14\<rparr>
   \<and> map seqIndex (submittedFrames (generateGif True (INITIAL_CONFIG\<lparr>rows := 3, totalFrames := 14\<rparr>)
        \<lparr>width = 400, height = 300\<rparr>)) = [0, 1, 2, 3, 4, 5, 6, 7, 8, 9, 10, 11]"
  by (simp add: generateGif_def INITIAL_CONFIG_def exportLoop_filter skipped_finite exportCell_def
      jsRem_def seqIndex_renderFrame upto.simps updateConfig_def Let_def)

text \<open>
  With 0 rows the code has no check of its own. In column order index 0 has the cell
  (\<^verbatim>\<open>NaN\<close>, \<^verbatim>\<open>NaN\<close>), which passes the safety check, and one frame is submitted, drawn
  from \<^verbatim>\<open>NaN\<close> coordinates onto a canvas of height 0; every later index has the column
  \<^verbatim>\<open>Infinity\<close> and is skipped. In row order every row is at least 0 rows and every index
  is skipped.
\<close>

lemma export_zero_rows:
  "map seqIndex (submittedFrames (generateGif True
      (INITIAL_CONFIG\<lparr>rows := 0, direction := Column\<rparr>) \<lparr>width = 400, height = 400\<rparr>)) = [0]
   \<and> map srcX (submittedFrames (generateGif True
      (INITIAL_CONFIG\<lparr>rows := 0, direction := Column\<rparr>) \<lparr>width = 400, height = 400\<rparr>)) = [NaN]
   \<and> map frameH (submittedFrames (generateGif True
      (INITIAL_CONFIG\<lparr>rows := 0, direction := Column\<rparr>) \<lparr>width = 400, height = 400\<rparr>)) = [0]
   \<and> submittedFrames (generateGif True
      (INITIAL_CONFIG\<lparr>rows := 0, direction := Row\<rparr>) \<lparr>width = 400, height = 400\<rparr>) = []"
  by (simp add: generateGif_def INITIAL_CONFIG_def exportLoop_filter skipped_def loopCell_def
      exportCell_def jsRem_def jsQuot_def renderFrame_def upto.simps Let_def frameHeight_def
      canvasHeight_def canvasDimension_def)

section \<open>Export: order of the frames and their delay\<close>






section \<open>Export: size of the frames\<close>

lemma of_int_div_exact:
  fixes a b :: int
  assumes "b dvd a" and "b \<noteq> 0"
  shows "(of_int a / of_int b :: rat) = of_int (a div b)"
proof -
  from assms(1) obtain k where "a = b * k"
    by (rule dvdE)
  with assms(2) show ?thesis
    by simp
qed

lemma canvasDimension_of_int:
  assumes "0 \<le> n" and "n \<le> 2147483647"
  shows "canvasDimension dflt (Num (of_int n)) = n"
proof -
  from assms have "\<bar>n\<bar> < 2 ^ 53"
    by simp
  then have "roundDouble (of_int n) = of_int n"
    by (rule roundDouble_of_int)
  moreover from assms have "n mod 4294967296 = n"
    by simp
  ultimately show ?thesis
    using assms by (simp add: canvasDimension_def)
qed

lemma canvas_product_exact:
  assumes "0 \<le> a" and "1 \<le> s" and "a * s \<le> 2147483647"
  shows "canvasDimension dflt (jsTimes (asDouble (Num (of_int a))) (Num (of_int s))) = a * s"
proof -
  from assms(1,2) have "a * 1 \<le> a * s"
    by (intro mult_left_mono) simp_all
  with assms have "\<bar>a\<bar> < 2 ^ 53"
    by simp
  then have "roundDouble (of_int a) = of_int a"
    by (rule roundDouble_of_int)
  then have "jsTimes (asDouble (Num (of_int a))) (Num (of_int s)) = Num (of_int (a * s))"
    by simp
  moreover from assms have "0 \<le> a * s"
    by simp
  ultimately show ?thesis
    using assms(3) by (simp only: canvasDimension_of_int)
qed

lemma canvasWidth_exact:
  assumes "1 \<le> cols config" and "cols config dvd width dimensions" and "0 \<le> width dimensions"
    and "1 \<le> scale config"
    and "(width dimensions div cols config) * scale config \<le> 2147483647"
  shows "canvasWidth config dimensions = (width dimensions div cols config) * scale config"
proof -
  from assms(1) have nz: "cols config \<noteq> 0"
    by simp
  have "frameWidth config dimensions = Num (of_int (width dimensions div cols config))"
    using nz assms(2) by (simp add: frameWidth_def jsQuot_def of_int_div_exact)
  moreover from assms(1,3) have "0 \<le> width dimensions div cols config"
    by (simp add: pos_imp_zdiv_nonneg_iff)
  ultimately show ?thesis
    using assms(4,5) by (simp only: canvasWidth_def canvas_product_exact)
qed

lemma canvasHeight_exact:
  assumes "1 \<le> rows config" and "rows config dvd height dimensions" and "0 \<le> height dimensions"
    and "1 \<le> scale config"
    and "(height dimensions div rows config) * scale config \<le> 2147483647"
  shows "canvasHeight config dimensions = (height dimensions div rows config) * scale config"
proof -
  from assms(1) have nz: "rows config \<noteq> 0"
    by simp
  have "frameHeight config dimensions = Num (of_int (height dimensions div rows config))"
    using nz assms(2) by (simp add: frameHeight_def jsQuot_def of_int_div_exact)
  moreover from assms(1,3) have "0 \<le> height dimensions div rows config"
    by (simp add: pos_imp_zdiv_nonneg_iff)
  ultimately show ?thesis
    using assms(4,5) by (simp only: canvasHeight_def canvas_product_exact)
qed

lemma canvasDimension_integer_part:
  assumes "0 \<le> q" and "\<lfloor>roundDouble q\<rfloor> \<le> 2147483647"
  shows "canvasDimension dflt (Num q) = \<lfloor>roundDouble q\<rfloor>"
proof -
  from assms(1) have nn: "0 \<le> roundDouble q"
    by (rule roundDouble_nonneg)
  then have "0 \<le> \<lfloor>roundDouble q\<rfloor>"
    by simp
  with assms(2) have "\<lfloor>roundDouble q\<rfloor> mod 4294967296 = \<lfloor>roundDouble q\<rfloor>"
    by simp
  with nn assms(2) show ?thesis
    by (simp add: canvasDimension_def)
qed

lemma canvasWidth_integer_part:
  assumes "1 \<le> cols config" and "0 \<le> width dimensions" and "0 \<le> scale config"
    and "\<lfloor>roundDouble (roundDouble (of_int (width dimensions) / of_int (cols config))
            * of_int (scale config))\<rfloor> \<le> 2147483647"
  shows "canvasWidth config dimensions =
           \<lfloor>roundDouble (roundDouble (of_int (width dimensions) / of_int (cols config))
              * of_int (scale config))\<rfloor>"
proof -
  from assms(1,2) have "(0::rat) \<le> of_int (width dimensions) / of_int (cols config)"
    by simp
  then have "0 \<le> roundDouble (of_int (width dimensions) / of_int (cols config))"
    by (rule roundDouble_nonneg)
  with assms(3)
  have "0 \<le> roundDouble (of_int (width dimensions) / of_int (cols config)) * of_int (scale config)"
    by simp
  then show ?thesis
    using assms(1,4) by (simp add: canvasWidth_def frameWidth_def jsQuot_def canvasDimension_integer_part)
qed

lemma canvasHeight_integer_part:
  assumes "1 \<le> rows config" and "0 \<le> height dimensions" and "0 \<le> scale config"
    and "\<lfloor>roundDouble (roundDouble (of_int (height dimensions) / of_int (rows config))
            * of_int (scale config))\<rfloor> \<le> 2147483647"
  shows "canvasHeight config dimensions =
           \<lfloor>roundDouble (roundDouble (of_int (height dimensions) / of_int (rows config))
              * of_int (scale config))\<rfloor>"
proof -
  from assms(1,2) have "(0::rat) \<le> of_int (height dimensions) / of_int (rows config)"
    by simp
  then have "0 \<le> roundDouble (of_int (height dimensions) / of_int (rows config))"
    by (rule roundDouble_nonneg)
  with assms(3)
  have "0 \<le> roundDouble (of_int (height dimensions) / of_int (rows config)) * of_int (scale config)"
    by simp
  then show ?thesis
    using assms(1,4) by (simp add: canvasHeight_def frameHeight_def jsQuot_def canvasDimension_integer_part)
qed

text \<open>
  Where the grid does not divide the sheet the canvas keeps the integer part: a sheet
  400 wide cut in 3 columns gives frames 133 wide. The second line shows the double at
  work: \<open>(1 / 49) * 49\<close> is just below 1 in double arithmetic, and the canvas is 0 wide.
\<close>

lemma canvas_fraction_example:
  "canvasWidth (INITIAL_CONFIG\<lparr>cols := 3\<rparr>) \<lparr>width = 400, height = 400\<rparr> = 133
   \<and> canvasWidth (INITIAL_CONFIG\<lparr>cols := 49, scale := 49\<rparr>) \<lparr>width = 1, height = 400\<rparr> = 0"
  by code_simp

lemma frame_size_renderFrame:
  "frameW (renderFrame config dimensions i) = canvasWidth config dimensions
   \<and> frameH (renderFrame config dimensions i) = canvasHeight config dimensions"
  by (simp add: renderFrame_def split: prod.split)

lemma submittedFrames_generateGif:
  "submittedFrames (generateGif hasContext config dimensions) =
     (if hasContext
      then map (renderFrame config dimensions)
             (filter (\<lambda>j. \<not> skipped config j) [0 .. totalFrames config - 1])
      else [])"
  by (simp add: generateGif_def exportLoop_filter Let_def)

text \<open>
  Claim C7, as the code has it. An export that obtained its canvas context always
  returns its encoder, and every frame buffer it submits has the pixel size of the export
  canvas: the integer parts of \<open>(naturalWidth / cols) * scale\<close> and of
  \<open>(naturalHeight / rows) * scale\<close> as the canvas stores them. Where cols divides the
  natural width and rows the natural height (rows, cols and scale at least 1, the sizes
  within the canvas range) this is exactly \<open>frameWidth * scale\<close> by
  \<open>frameHeight * scale\<close>; a sheet 400 wide cut in 3 columns gives frames 133 wide. For a
  400 by 400 source with rows 2, cols 2, totalFrames 4, fps 10, scale 2 and row-major
  direction, four frames are submitted, for the cells (0,0), (0,1), (1,0), (1,1) in this
  order, each cut from a 200 by 200 source rectangle, each 400 by 400, each with a delay
  of 100 milliseconds.
\<close>

theorem export_frame_size:
  "(\<exists>gif. generateGif True config dimensions = Inr gif)
   \<and> (\<forall>f \<in> set (submittedFrames (generateGif hasContext config dimensions)).
        frameW f = canvasWidth config dimensions \<and> frameH f = canvasHeight config dimensions)
   \<and> (1 \<le> rows config \<and> 1 \<le> cols config \<and> 1 \<le> scale config
       \<and> 0 \<le> width dimensions \<and> 0 \<le> height dimensions
       \<and> cols config dvd width dimensions \<and> rows config dvd height dimensions
       \<and> (width dimensions div cols config) * scale config \<le> 2147483647
       \<and> (height dimensions div rows config) * scale config \<le> 2147483647
      \<longrightarrow> canvasWidth config dimensions = (width dimensions div cols config) * scale config
        \<and> canvasHeight config dimensions = (height dimensions div rows config) * scale config
        \<and> (of_int ((width dimensions div cols config) * scale config) :: rat)
            = of_int (width dimensions) / of_int (cols config) * of_int (scale config)
        \<and> (of_int ((height dimensions div rows config) * scale config) :: rat)
            = of_int (height dimensions) / of_int (rows config) * of_int (scale config))
   \<and> (1 \<le> rows config \<and> 1 \<le> cols config \<and> 0 \<le> scale config
       \<and> 0 \<le> width dimensions \<and> 0 \<le> height dimensions
       \<and> \<lfloor>roundDouble (roundDouble (of_int (width dimensions) / of_int (cols config))
              * of_int (scale config))\<rfloor> \<le> 2147483647
       \<and> \<lfloor>roundDouble (roundDouble (of_int (height dimensions) / of_int (rows config))
              * of_int (scale config))\<rfloor> \<le> 2147483647
      \<longrightarrow> canvasWidth config dimensions
            = \<lfloor>roundDouble (roundDouble (of_int (width dimensions) / of_int (cols config))
                * of_int (scale config))\<rfloor>
        \<and> canvasHeight config dimensions
            = \<lfloor>roundDouble (roundDouble (of_int (height dimensions) / of_int (rows config))
                * of_int (scale config))\<rfloor>)
   \<and> canvasWidth (INITIAL_CONFIG\<lparr>cols := 3\<rparr>) \<lparr>width = 400, height = 400\<rparr> = 133
   \<and> map seqIndex (submittedFrames (generateGif True
          (config\<lparr>rows := 2, cols := 2, totalFrames := 4, fps := 10, scale := 2, direction := Row\<rparr>)
          \<lparr>width = 400, height = 400\<rparr>)) = [0, 1, 2, 3]
   \<and> map (exportCell (config\<lparr>rows := 2, cols := 2, totalFrames := 4, fps := 10, scale := 2,
          direction := Row\<rparr>)) [0, 1, 2, 3] = [(0, 0), (0, 1), (1, 0), (1, 1)]
   \<and> map srcY (submittedFrames (generateGif True
          (config\<lparr>rows := 2, cols := 2, totalFrames := 4, fps := 10, scale := 2, direction := Row\<rparr>)
          \<lparr>width = 400, height = 400\<rparr>)) = [Num 0, Num 0, Num 200, Num 200]
   \<and> map srcX (submittedFrames (generateGif True
          (config\<lparr>rows := 2, cols := 2, totalFrames := 4, fps := 10, scale := 2, direction := Row\<rparr>)
          \<lparr>width = 400, height = 400\<rparr>)) = [Num 0, Num 200, Num 0, Num 200]
   \<and> map srcW (submittedFrames (generateGif True
          (config\<lparr>rows := 2, cols := 2, totalFrames := 4, fps := 10, scale := 2, direction := Row\<rparr>)
          \<lparr>width = 400, height = 400\<rparr>)) = [Num 200, Num 200, Num 200, Num 200]
   \<and> map srcH (submittedFrames (generateGif True
          (config\<lparr>rows := 2, cols := 2, totalFrames := 4, fps := 10, scale := 2, direction := Row\<rparr>)
          \<lparr>width = 400, height = 400\<rparr>)) = [Num 200, Num 200, Num 200, Num 200]
   \<and> map frameW (submittedFrames (generateGif True
          (config\<lparr>rows := 2, cols := 2, totalFrames := 4, fps := 10, scale := 2, direction := Row\<rparr>)
          \<lparr>width = 400, height = 400\<rparr>)) = [400, 400, 400, 400]
   \<and> map frameH (submittedFrames (generateGif True
          (config\<lparr>rows := 2, cols := 2, totalFrames := 4, fps := 10, scale := 2, direction := Row\<rparr>)
          \<lparr>width = 400, height = 400\<rparr>)) = [400, 400, 400, 400]
   \<and> map delay (submittedFrames (generateGif True
          (config\<lparr>rows := 2, cols := 2, totalFrames := 4, fps := 10, scale := 2, direction := Row\<rparr>)
          \<lparr>width = 400, height = 400\<rparr>)) = [Num 100, Num 100, Num 100, Num 100]"
proof -
  let ?c = "config\<lparr>rows := 2, cols := 2, totalFrames := 4, fps := 10, scale := 2, direction := Row\<rparr>"
  let ?d = "\<lparr>width = 400, height = 400\<rparr>"
  have ex: "\<exists>gif. generateGif True config dimensions = Inr gif"
    by (simp add: generateGif_def Let_def)
  have every: "\<forall>f \<in> set (submittedFrames (generateGif hasContext config dimensions)).
        frameW f = canvasWidth config dimensions \<and> frameH f = canvasHeight config dimensions"
    by (auto simp add: submittedFrames_generateGif frame_size_renderFrame)
  have exact: "canvasWidth config dimensions = (width dimensions div cols config) * scale config
        \<and> canvasHeight config dimensions = (height dimensions div rows config) * scale config
        \<and> (of_int ((width dimensions div cols config) * scale config) :: rat)
            = of_int (width dimensions) / of_int (cols config) * of_int (scale config)
        \<and> (of_int ((height dimensions div rows config) * scale config) :: rat)
            = of_int (height dimensions) / of_int (rows config) * of_int (scale config)"
    if h: "1 \<le> rows config \<and> 1 \<le> cols config \<and> 1 \<le> scale config
       \<and> 0 \<le> width dimensions \<and> 0 \<le> height dimensions
       \<and> cols config dvd width dimensions \<and> rows config dvd height dimensions
       \<and> (width dimensions div cols config) * scale config \<le> 2147483647
       \<and> (height dimensions div rows config) * scale config \<le> 2147483647"
  proof -
    from h have "canvasWidth config dimensions = (width dimensions div cols config) * scale config"
      by (intro canvasWidth_exact) simp_all
    moreover from h
    have "canvasHeight config dimensions = (height dimensions div rows config) * scale config"
      by (intro canvasHeight_exact) simp_all
    moreover from h have "cols config \<noteq> 0" "rows config \<noteq> 0"
      by auto
    ultimately show ?thesis
      using h by (simp add: of_int_div_exact)
  qed
  have part: "canvasWidth config dimensions
            = \<lfloor>roundDouble (roundDouble (of_int (width dimensions) / of_int (cols config))
                * of_int (scale config))\<rfloor>
        \<and> canvasHeight config dimensions
            = \<lfloor>roundDouble (roundDouble (of_int (height dimensions) / of_int (rows config))
                * of_int (scale config))\<rfloor>"
    if h: "1 \<le> rows config \<and> 1 \<le> cols config \<and> 0 \<le> scale config
       \<and> 0 \<le> width dimensions \<and> 0 \<le> height dimensions
       \<and> \<lfloor>roundDouble (roundDouble (of_int (width dimensions) / of_int (cols config))
              * of_int (scale config))\<rfloor> \<le> 2147483647
       \<and> \<lfloor>roundDouble (roundDouble (of_int (height dimensions) / of_int (rows config))
              * of_int (scale config))\<rfloor> \<le> 2147483647"
  proof -
    from h have "canvasWidth config dimensions
            = \<lfloor>roundDouble (roundDouble (of_int (width dimensions) / of_int (cols config))
                * of_int (scale config))\<rfloor>"
      by (intro canvasWidth_integer_part) simp_all
    moreover from h have "canvasHeight config dimensions
            = \<lfloor>roundDouble (roundDouble (of_int (height dimensions) / of_int (rows config))
                * of_int (scale config))\<rfloor>"
      by (intro canvasHeight_integer_part) simp_all
    ultimately show ?thesis
      by simp
  qed
  have frac: "canvasWidth (INITIAL_CONFIG\<lparr>cols := 3\<rparr>) \<lparr>width = 400, height = 400\<rparr> = 133"
    using canvas_fraction_example by simp
  have cw: "canvasWidth ?c ?d = 400"
    by (subst canvasWidth_exact) simp_all
  have ch: "canvasHeight ?c ?d = 400"
    by (subst canvasHeight_exact) simp_all
  have fs: "submittedFrames (generateGif True ?c ?d) = map (renderFrame ?c ?d) [0, 1, 2, 3]"
    by (simp add: submittedFrames_generateGif skipped_finite exportCell_def jsRem_def upto.simps)
  have cells: "map (exportCell ?c) [0, 1, 2, 3] = [(0, 0), (0, 1), (1, 0), (1, 1)]"
    by (simp add: exportCell_def jsRem_def)
  have 1: "map seqIndex (submittedFrames (generateGif True ?c ?d)) = [0, 1, 2, 3]"
    unfolding fs by (simp add: seqIndex_renderFrame)
  have 2: "map srcY (submittedFrames (generateGif True ?c ?d)) = [Num 0, Num 0, Num 200, Num 200]"
    unfolding fs
    by (simp add: renderFrame_def loopCell_finite exportCell_def jsRem_def frameHeight_def jsQuot_def)
  have 3: "map srcX (submittedFrames (generateGif True ?c ?d)) = [Num 0, Num 200, Num 0, Num 200]"
    unfolding fs
    by (simp add: renderFrame_def loopCell_finite exportCell_def jsRem_def frameWidth_def jsQuot_def)
  have 4: "map srcW (submittedFrames (generateGif True ?c ?d)) = [Num 200, Num 200, Num 200, Num 200]"
    unfolding fs by (simp add: renderFrame_def frameWidth_def jsQuot_def split: prod.split)
  have 5: "map srcH (submittedFrames (generateGif True ?c ?d)) = [Num 200, Num 200, Num 200, Num 200]"
    unfolding fs by (simp add: renderFrame_def frameHeight_def jsQuot_def split: prod.split)
  have 6: "map frameW (submittedFrames (generateGif True ?c ?d)) = [400, 400, 400, 400]"
    unfolding fs by (simp add: frame_size_renderFrame cw)
  have 7: "map frameH (submittedFrames (generateGif True ?c ?d)) = [400, 400, 400, 400]"
    unfolding fs by (simp add: frame_size_renderFrame ch)
  have 8: "map delay (submittedFrames (generateGif True ?c ?d)) = [Num 100, Num 100, Num 100, Num 100]"
    unfolding fs by (simp add: renderFrame_def frameDelay_def jsQuot_def split: prod.split)
  from ex every exact part frac cells 1 2 3 4 5 6 7 8 show ?thesis
    by blast
qed

theorem export_frame_size_witness:
  "1 \<le> rows (INITIAL_CONFIG\<lparr>rows := 1, cols := 2, totalFrames := 1, scale := 4\<rparr>)
   \<and> cols (INITIAL_CONFIG\<lparr>rows := 1, cols := 2, totalFrames := 1, scale := 4\<rparr>) dvd 300
   \<and> map frameW (submittedFrames (generateGif True
        (INITIAL_CONFIG\<lparr>rows := 1, cols := 2, totalFrames := 1, scale := 4\<rparr>)
        \<lparr>width = 300, height = 100\<rparr>)) = [600]
   \<and> map frameH (submittedFrames (generateGif True
        (INITIAL_CONFIG\<lparr>rows := 1, cols := 2, totalFrames := 1, scale := 4\<rparr>)
        \<lparr>width = 300, height = 100\<rparr>)) = [400]"
proof -
  let ?c = "INITIAL_CONFIG\<lparr>rows := 1, cols := 2, totalFrames := 1, scale := 4\<rparr>"
  let ?d = "\<lparr>width = 300, height = 100\<rparr>"
  have h: "1 \<le> rows ?c \<and> 1 \<le> cols ?c \<and> 1 \<le> scale ?c
       \<and> 0 \<le> width ?d \<and> 0 \<le> height ?d
       \<and> cols ?c dvd width ?d \<and> rows ?c dvd height ?d
       \<and> (width ?d div cols ?c) * scale ?c \<le> 2147483647
       \<and> (height ?d div rows ?c) * scale ?c \<le> 2147483647"
    by (simp add: INITIAL_CONFIG_def)
  have fs: "submittedFrames (generateGif True ?c ?d) = [renderFrame ?c ?d 0]"
    by (simp add: submittedFrames_generateGif skipped_finite exportCell_def jsRem_def upto.simps
        INITIAL_CONFIG_def)
  from export_frame_size [of ?c ?d True] h
  have size: "canvasWidth ?c ?d = (width ?d div cols ?c) * scale ?c"
    "canvasHeight ?c ?d = (height ?d div rows ?c) * scale ?c"
    and every: "\<forall>f \<in> set (submittedFrames (generateGif True ?c ?d)).
        frameW f = canvasWidth ?c ?d \<and> frameH f = canvasHeight ?c ?d"
    by blast+
  from every have "frameW (renderFrame ?c ?d 0) = canvasWidth ?c ?d"
    "frameH (renderFrame ?c ?d 0) = canvasHeight ?c ?d"
    by (simp_all add: fs)
  with size have "frameW (renderFrame ?c ?d 0) = 600" "frameH (renderFrame ?c ?d 0) = 400"
    by (simp_all add: INITIAL_CONFIG_def)
  then have "map frameW (submittedFrames (generateGif True ?c ?d)) = [600]"
    "map frameH (submittedFrames (generateGif True ?c ?d)) = [400]"
    by (simp_all add: fs)
  with h show ?thesis
    by simp
qed

text \<open>
  Claim C7 as stated fails on the scenario: the frames of the 400 by 400 source cut 2 by 2
  at scale 2 are 400 by 400, not 200 by 200.
\<close>

theorem export_frame_size_scenario:
  "map frameW (submittedFrames (generateGif True
      (INITIAL_CONFIG\<lparr>rows := 2, cols := 2, totalFrames := 4, fps := 10, scale := 2, direction := Row\<rparr>)
      \<lparr>width = 400, height = 400\<rparr>)) = [400, 400, 400, 400]
   \<and> map frameH (submittedFrames (generateGif True
      (INITIAL_CONFIG\<lparr>rows := 2, cols := 2, totalFrames := 4, fps := 10, scale := 2, direction := Row\<rparr>)
      \<lparr>width = 400, height = 400\<rparr>)) = [400, 400, 400, 400]
   \<and> (400::int) \<noteq> 200"
  by code_simp

section \<open>Chroma key\<close>

lemma keyLoop_length: "length (keyLoop rBg gBg bBg data) = length data"
  by (induction rBg gBg bBg data rule: keyLoop.induct) simp_all

lemma pixelAt_0: "pixelAt (r # g # b # a # rest) 0 = [r, g, b, a]"
  by (simp add: pixelAt_def)

lemma pixelAt_Suc: "pixelAt (r # g # b # a # rest) (Suc k) = pixelAt rest k"
proof -
  have "4 * Suc k = 4 * k + 4"
    by simp
  then have "drop (4 * Suc k) (r # g # b # a # rest) = drop (4 * k) (drop 4 (r # g # b # a # rest))"
    by (simp only: drop_drop)
  then show ?thesis
    by (simp add: pixelAt_def)
qed

lemma pixelAt_beyond: "length data \<le> 4 * k \<Longrightarrow> pixelAt data k = []"
  by (simp add: pixelAt_def)

lemma nth_skip4: "(r # g # b # a # rest) ! (4 * Suc k + j) = rest ! (4 * k + j)"
  by simp

lemma pixelAt_nth:
  assumes "j < 4" and "4 * k + j < length data"
  shows "pixelAt data k ! j = data ! (4 * k + j)"
  using assms by (simp add: pixelAt_def)

lemma list_eq_pixelwise:
  assumes "length xs = length ys"
  shows "xs = ys \<longleftrightarrow> (\<forall>k. 4 * k < length xs \<longrightarrow> pixelAt xs k = pixelAt ys k)"
proof
  assume "xs = ys"
  then show "\<forall>k. 4 * k < length xs \<longrightarrow> pixelAt xs k = pixelAt ys k"
    by simp
next
  assume px: "\<forall>k. 4 * k < length xs \<longrightarrow> pixelAt xs k = pixelAt ys k"
  show "xs = ys"
  proof (rule nth_equalityI)
    show "length xs = length ys"
      by (rule assms)
  next
    fix i
    assume i: "i < length xs"
    have split: "4 * (i div 4) + i mod 4 = i"
      by simp
    have j: "i mod 4 < 4"
      by simp
    from i have "4 * (i div 4) < length xs"
      by (metis split add_lessD1)
    with px have "pixelAt xs (i div 4) = pixelAt ys (i div 4)"
      by blast
    then have "pixelAt xs (i div 4) ! (i mod 4) = pixelAt ys (i div 4) ! (i mod 4)"
      by simp
    moreover have "pixelAt xs (i div 4) ! (i mod 4) = xs ! (4 * (i div 4) + i mod 4)"
      using j i by (intro pixelAt_nth) (simp_all only: split)
    moreover have "pixelAt ys (i div 4) ! (i mod 4) = ys ! (4 * (i div 4) + i mod 4)"
      using j i assms by (intro pixelAt_nth) (simp_all only: split)
    ultimately show "xs ! i = ys ! i"
      by (simp only: split)
  qed
qed

lemma keyLoop_pixel_any:
  "pixelAt (keyLoop rBg gBg bBg data) k =
     (if 4 * k + 4 \<le> length data
      then (if matchesBackground rBg gBg bBg
                 (data ! (4 * k)) (data ! (4 * k + 1)) (data ! (4 * k + 2)) (data ! (4 * k + 3))
            then [255, 0, 255, 255] else pixelAt data k)
      else if 4 * k + 3 = length data
      then (if withinTolerance rBg gBg bBg (data ! (4 * k)) (data ! (4 * k + 1)) (data ! (4 * k + 2))
            then [255, 0, 255] else pixelAt data k)
      else pixelAt data k)"
proof (induction rBg gBg bBg data arbitrary: k rule: keyLoop.induct)
  case (1 rBg gBg bBg r g b a rest)
  show ?case
  proof (cases k)
    case 0
    then show ?thesis
      by (simp add: pixelAt_0 KEY_COLOR_RGB_def)
  next
    case (Suc k')
    have len: "4 * Suc k' + 4 \<le> length (r # g # b # a # rest) \<longleftrightarrow> 4 * k' + 4 \<le> length rest"
      "4 * Suc k' + 3 = length (r # g # b # a # rest) \<longleftrightarrow> 4 * k' + 3 = length rest"
      by auto
    have n: "(r # g # b # a # rest) ! (4 * Suc k') = rest ! (4 * k')"
      "(r # g # b # a # rest) ! (4 * Suc k' + 1) = rest ! (4 * k' + 1)"
      "(r # g # b # a # rest) ! (4 * Suc k' + 2) = rest ! (4 * k' + 2)"
      "(r # g # b # a # rest) ! (4 * Suc k' + 3) = rest ! (4 * k' + 3)"
      by (simp_all add: add.commute)
    have px: "pixelAt (keyLoop rBg gBg bBg (r # g # b # a # rest)) (Suc k')
                = pixelAt (keyLoop rBg gBg bBg rest) k'"
      by (simp add: pixelAt_Suc)
    have IH: "pixelAt (keyLoop rBg gBg bBg rest) k' =
     (if 4 * k' + 4 \<le> length rest
      then (if matchesBackground rBg gBg bBg
                 (rest ! (4 * k')) (rest ! (4 * k' + 1)) (rest ! (4 * k' + 2)) (rest ! (4 * k' + 3))
            then [255, 0, 255, 255] else pixelAt rest k')
      else if 4 * k' + 3 = length rest
      then (if withinTolerance rBg gBg bBg (rest ! (4 * k')) (rest ! (4 * k' + 1)) (rest ! (4 * k' + 2))
            then [255, 0, 255] else pixelAt rest k')
      else pixelAt rest k')"
      using "1.IH" by (cases "matchesBackground rBg gBg bBg r g b a") blast+
    show ?thesis
      unfolding Suc by (simp only: px len n IH pixelAt_Suc)
  qed
next
  case (2 rBg gBg bBg r g b)
  show ?case
  proof (cases k)
    case 0
    then show ?thesis
      by (simp add: pixelAt_def KEY_COLOR_RGB_def)
  next
    case (Suc k')
    then show ?thesis
      by (simp add: pixelAt_beyond)
  qed
qed (simp_all add: pixelAt_def)

lemma four_bytes:
  assumes "4 \<le> length data"
  shows "\<exists>r g b a rest. data = r # g # b # a # rest"
  using assms by (auto simp add: numeral_eq_Suc Suc_le_length_iff)

lemma keyLoop_pixel:
  assumes "4 * k + 4 \<le> length data"
  shows "pixelAt (keyLoop rBg gBg bBg data) k =
           (if matchesBackground rBg gBg bBg
                 (data ! (4 * k)) (data ! (4 * k + 1)) (data ! (4 * k + 2)) (data ! (4 * k + 3))
            then [255, 0, 255, 255] else pixelAt data k)"
  using assms by (simp add: keyLoop_pixel_any)

lemma applyChromaKey_length: "length (applyChromaKey data) = length data"
  by (simp add: applyChromaKey_def keyLoop_length split: list.split)

lemma applyChromaKey_short: "length data < 3 \<Longrightarrow> applyChromaKey data = data"
  by (auto simp add: applyChromaKey_def split: list.split)

lemma applyChromaKey_keyed_first:
  assumes "take 3 data = KEY_COLOR_RGB"
  shows "applyChromaKey data = keyLoop 255 0 255 data"
  using assms by (auto simp add: applyChromaKey_def KEY_COLOR_RGB_def split: list.split)

lemma withinTolerance_self: "withinTolerance r g b r g b"
  by (simp add: withinTolerance_def tolerance_def)

lemma applyChromaKey_first_pixel:
  assumes "3 \<le> length data"
  shows "take 3 (applyChromaKey data) = KEY_COLOR_RGB"
proof -
  from assms obtain r g b rest where d: "data = r # g # b # rest"
    by (auto simp add: numeral_eq_Suc Suc_le_length_iff)
  show ?thesis
  proof (cases rest)
    case Nil
    with d show ?thesis
      by (simp add: applyChromaKey_def withinTolerance_self KEY_COLOR_RGB_def)
  next
    case (Cons a rest')
    with d show ?thesis
      by (simp add: applyChromaKey_def matchesBackground_def withinTolerance_self
          KEY_COLOR_RGB_def)
  qed
qed

lemma applyChromaKey_second_pass:
  assumes "3 \<le> length data"
  shows "applyChromaKey (applyChromaKey data) = keyLoop 255 0 255 (applyChromaKey data)"
  using assms by (simp add: applyChromaKey_keyed_first applyChromaKey_first_pixel)

lemma applyChromaKey_first_pass:
  assumes "3 \<le> length data"
  shows "applyChromaKey data = keyLoop (data ! 0) (data ! 1) (data ! 2) data"
proof -
  from assms obtain r g b rest where "data = r # g # b # rest"
    by (auto simp add: numeral_eq_Suc Suc_le_length_iff)
  then show ?thesis
    by (simp add: applyChromaKey_def)
qed

lemma applyChromaKey_alpha:
  assumes "4 * k + 4 \<le> length data"
  shows "\<not> uint (applyChromaKey data ! (4 * k + 3)) < 10"
proof -
  from assms have "3 \<le> length data"
    by simp
  then have out: "applyChromaKey data = keyLoop (data ! 0) (data ! 1) (data ! 2) data"
    by (rule applyChromaKey_first_pass)
  have "applyChromaKey data ! (4 * k + 3) = pixelAt (applyChromaKey data) k ! 3"
    using assms by (simp add: pixelAt_nth applyChromaKey_length)
  moreover have "pixelAt data k ! 3 = data ! (4 * k + 3)"
    using assms by (simp add: pixelAt_nth)
  ultimately show ?thesis
    using keyLoop_pixel [OF assms, of "data ! 0" "data ! 1" "data ! 2"]
    by (auto simp add: out matchesBackground_def split: if_splits)
qed

lemma second_pass_pixel:
  assumes "3 \<le> length data"
  shows "(4 * k < length data \<longrightarrow>
            pixelAt (keyLoop 255 0 255 (applyChromaKey data)) k = pixelAt (applyChromaKey data) k)
         \<longleftrightarrow>
         (4 * k + 3 \<le> length data \<longrightarrow>
            withinTolerance 255 0 255 (applyChromaKey data ! (4 * k))
              (applyChromaKey data ! (4 * k + 1)) (applyChromaKey data ! (4 * k + 2)) \<longrightarrow>
            pixelAt (applyChromaKey data) k = take (length data - 4 * k) [255, 0, 255, 255])"
proof -
  let ?out = "applyChromaKey data"
  have len: "length ?out = length data"
    by (rule applyChromaKey_length)
  consider (whole) "4 * k + 4 \<le> length data" | (three) "4 * k + 3 = length data"
    | (less) "length data < 4 * k + 3"
    by linarith
  then show ?thesis
  proof cases
    case whole
    then have "\<not> uint (?out ! (4 * k + 3)) < 10"
      by (rule applyChromaKey_alpha)
    then have m: "matchesBackground 255 0 255 (?out ! (4 * k)) (?out ! (4 * k + 1))
                    (?out ! (4 * k + 2)) (?out ! (4 * k + 3))
                  \<longleftrightarrow> withinTolerance 255 0 255 (?out ! (4 * k)) (?out ! (4 * k + 1))
                    (?out ! (4 * k + 2))"
      by (simp add: matchesBackground_def)
    from whole have t: "take (length data - 4 * k) [255, 0, 255, 255 :: byte] = [255, 0, 255, 255]"
      by simp
    from whole m show ?thesis
      by (auto simp add: keyLoop_pixel_any len t)
  next
    case three
    then have "length data - 4 * k = 3"
      by linarith
    then have t: "take (length data - 4 * k) [255, 0, 255, 255 :: byte] = [255, 0, 255]"
      by simp
    from three show ?thesis
      by (auto simp add: keyLoop_pixel_any len t)
  next
    case less
    then show ?thesis
      by (simp add: keyLoop_pixel_any len)
  qed
qed

text \<open>
  Claim C5. For every buffer and every pixel \<open>k\<close> in it, \<^verbatim>\<open>applyChromaKey\<close> replaces the
  pixel by (255, 0, 255) at alpha 255 if and only if each of its red, green and blue
  channels differs from the same channel of the pixel at (0,0) by less than the tolerance
  20 (the code's test \<^verbatim>\<open>Math.abs(..) < tolerance\<close>), or its alpha is below 10; otherwise
  the four bytes of the pixel are the input's. The length of the buffer does not change.
\<close>

theorem chroma_key_pixelwise:
  assumes "4 * k + 4 \<le> length data"
  shows "length (applyChromaKey data) = length data
     \<and> pixelAt (applyChromaKey data) k =
         (if (\<bar>uint (data ! (4 * k)) - uint (data ! 0)\<bar> < 20
              \<and> \<bar>uint (data ! (4 * k + 1)) - uint (data ! 1)\<bar> < 20
              \<and> \<bar>uint (data ! (4 * k + 2)) - uint (data ! 2)\<bar> < 20)
             \<or> uint (data ! (4 * k + 3)) < 10
          then [255, 0, 255, 255] else pixelAt data k)"
proof -
  from assms have "4 \<le> length data"
    by simp
  then obtain r g b a rest where d: "data = r # g # b # a # rest"
    using four_bytes by blast
  then have "applyChromaKey data = keyLoop (data ! 0) (data ! 1) (data ! 2) data"
    by (simp add: applyChromaKey_def)
  then show ?thesis
    using keyLoop_pixel [OF assms, of "data ! 0" "data ! 1" "data ! 2"]
    by (simp add: keyLoop_length matchesBackground_def withinTolerance_def tolerance_def)
qed

theorem chroma_key_pixelwise_witness:
  "4 * 4 + 4 \<le> length ([255, 255, 255, 255, 240, 250, 255, 255, 10, 20, 30, 255, 235, 255, 255, 255, 1, 2, 3, 9] :: byte list)
   \<and> pixelAt (applyChromaKey [255, 255, 255, 255, 240, 250, 255, 255, 10, 20, 30, 255, 235, 255, 255, 255, 1, 2, 3, 9]) 1
     = [255, 0, 255, 255]
   \<and> pixelAt (applyChromaKey [255, 255, 255, 255, 240, 250, 255, 255, 10, 20, 30, 255, 235, 255, 255, 255, 1, 2, 3, 9]) 2
     = [10, 20, 30, 255]
   \<and> pixelAt (applyChromaKey [255, 255, 255, 255, 240, 250, 255, 255, 10, 20, 30, 255, 235, 255, 255, 255, 1, 2, 3, 9]) 3
     = [235, 255, 255, 255]
   \<and> pixelAt (applyChromaKey [255, 255, 255, 255, 240, 250, 255, 255, 10, 20, 30, 255, 235, 255, 255, 255, 1, 2, 3, 9]) 4
     = [255, 0, 255, 255]"
  using chroma_key_pixelwise [of 1 "[255, 255, 255, 255, 240, 250, 255, 255, 10, 20, 30, 255, 235, 255, 255, 255, 1, 2, 3, 9]"]
    chroma_key_pixelwise [of 2 "[255, 255, 255, 255, 240, 250, 255, 255, 10, 20, 30, 255, 235, 255, 255, 255, 1, 2, 3, 9]"]
    chroma_key_pixelwise [of 3 "[255, 255, 255, 255, 240, 250, 255, 255, 10, 20, 30, 255, 235, 255, 255, 255, 1, 2, 3, 9]"]
    chroma_key_pixelwise [of 4 "[255, 255, 255, 255, 240, 250, 255, 255, 10, 20, 30, 255, 235, 255, 255, 255, 1, 2, 3, 9]"]
  by (simp add: pixelAt_def)

text \<open>
  Claim C4, as the code has it. \<^verbatim>\<open>applyChromaKey\<close> applied twice gives the result of
  applying it once if and only if, in the buffer the first pass produced, every pixel
  whose red, green and blue channels are within the tolerance of the key colour
  (255, 0, 255) is the key pixel (255, 0, 255, 255) itself (cut to three bytes for an
  incomplete last pixel): that is, no pixel that the first pass left as it was, unless
  it is the key pixel already, lies within the tolerance of the key colour. On every
  buffer the second pass leaves unchanged each pixel the first pass set to the key
  colour.
\<close>

theorem chroma_key_twice_iff:
  "(applyChromaKey (applyChromaKey data) = applyChromaKey data \<longleftrightarrow>
      (\<forall>k. 4 * k + 3 \<le> length data \<longrightarrow>
         withinTolerance 255 0 255 (applyChromaKey data ! (4 * k))
           (applyChromaKey data ! (4 * k + 1)) (applyChromaKey data ! (4 * k + 2)) \<longrightarrow>
         pixelAt (applyChromaKey data) k = take (length data - 4 * k) [255, 0, 255, 255]))
   \<and> (4 * k + 4 \<le> length data \<and> pixelAt (applyChromaKey data) k = [255, 0, 255, 255]
        \<longrightarrow> pixelAt (applyChromaKey (applyChromaKey data)) k = [255, 0, 255, 255])"
proof -
  have iff: "applyChromaKey (applyChromaKey data) = applyChromaKey data \<longleftrightarrow>
      (\<forall>k. 4 * k + 3 \<le> length data \<longrightarrow>
         withinTolerance 255 0 255 (applyChromaKey data ! (4 * k))
           (applyChromaKey data ! (4 * k + 1)) (applyChromaKey data ! (4 * k + 2)) \<longrightarrow>
         pixelAt (applyChromaKey data) k = take (length data - 4 * k) [255, 0, 255, 255])"
  proof (cases "3 \<le> length data")
    case True
    have "applyChromaKey (applyChromaKey data) = applyChromaKey data \<longleftrightarrow>
            keyLoop 255 0 255 (applyChromaKey data) = applyChromaKey data"
      using True by (simp add: applyChromaKey_second_pass)
    also have "\<dots> \<longleftrightarrow> (\<forall>k. 4 * k < length data \<longrightarrow>
            pixelAt (keyLoop 255 0 255 (applyChromaKey data)) k = pixelAt (applyChromaKey data) k)"
      using list_eq_pixelwise [of "keyLoop 255 0 255 (applyChromaKey data)" "applyChromaKey data"]
      by (simp add: keyLoop_length applyChromaKey_length)
    also have "\<dots> \<longleftrightarrow> (\<forall>k. 4 * k + 3 \<le> length data \<longrightarrow>
         withinTolerance 255 0 255 (applyChromaKey data ! (4 * k))
           (applyChromaKey data ! (4 * k + 1)) (applyChromaKey data ! (4 * k + 2)) \<longrightarrow>
         pixelAt (applyChromaKey data) k = take (length data - 4 * k) [255, 0, 255, 255])"
      using second_pass_pixel [OF True] by simp
    finally show ?thesis .
  next
    case False
    then show ?thesis
      by (simp add: applyChromaKey_short)
  qed
  have keyed: "pixelAt (applyChromaKey (applyChromaKey data)) k = [255, 0, 255, 255]"
    if len: "4 * k + 4 \<le> length data"
      and key: "pixelAt (applyChromaKey data) k = [255, 0, 255, 255]"
  proof -
    from len have "3 \<le> length data"
      by simp
    then have "applyChromaKey (applyChromaKey data) = keyLoop 255 0 255 (applyChromaKey data)"
      by (rule applyChromaKey_second_pass)
    moreover from len have "4 * k + 4 \<le> length (applyChromaKey data)"
      by (simp add: applyChromaKey_length)
    ultimately show ?thesis
      using key by (simp add: keyLoop_pixel)
  qed
  from iff keyed show ?thesis
    by blast
qed

theorem chroma_key_twice_iff_witness:
  "applyChromaKey (applyChromaKey [255, 255, 255, 255, 250, 250, 250, 255, 10, 20, 30, 255])
     = applyChromaKey [255, 255, 255, 255, 250, 250, 250, 255, 10, 20, 30, 255]
   \<and> applyChromaKey [255, 255, 255, 255, 250, 250, 250, 255, 10, 20, 30, 255]
     = [255, 0, 255, 255, 255, 0, 255, 255, 10, 20, 30, 255]
   \<and> 4 * 2 + 3 \<le> length ([255, 255, 255, 255, 250, 250, 250, 255, 10, 20, 30, 255] :: byte list)
   \<and> \<not> withinTolerance 255 0 255 10 20 30
   \<and> 4 * 1 + 4 \<le> length ([255, 255, 255, 255, 250, 250, 250, 255, 10, 20, 30, 255] :: byte list)
   \<and> pixelAt (applyChromaKey [255, 255, 255, 255, 250, 250, 250, 255, 10, 20, 30, 255]) 1
       = [255, 0, 255, 255]
   \<and> pixelAt (applyChromaKey
         (applyChromaKey [255, 255, 255, 255, 250, 250, 250, 255, 10, 20, 30, 255])) 1
       = [255, 0, 255, 255]"
  using chroma_key_twice_iff [of "[255, 255, 255, 255, 250, 250, 250, 255, 10, 20, 30, 255]" 1]
  by (simp add: applyChromaKey_def matchesBackground_def withinTolerance_def tolerance_def
      KEY_COLOR_RGB_def pixelAt_def)

text \<open>
  Claim C4 as stated fails: on a white background a pixel (250, 5, 250) at full alpha is
  left alone by the first pass, whose reference is white, and overwritten by the second,
  whose reference is the top-left pixel the first pass set to the key colour.
\<close>

theorem chroma_key_not_idempotent:
  "applyChromaKey [255, 255, 255, 255, 250, 5, 250, 255] = [255, 0, 255, 255, 250, 5, 250, 255]
   \<and> applyChromaKey (applyChromaKey [255, 255, 255, 255, 250, 5, 250, 255])
       = [255, 0, 255, 255, 255, 0, 255, 255]
   \<and> applyChromaKey (applyChromaKey [255, 255, 255, 255, 250, 5, 250, 255])
       \<noteq> applyChromaKey [255, 255, 255, 255, 250, 5, 250, 255]"
  by (simp add: applyChromaKey_def matchesBackground_def withinTolerance_def tolerance_def
      KEY_COLOR_RGB_def)

section \<open>Grid overlay\<close>

lemma cell_index_bounds:
  fixes vr vc r c :: int
  assumes "0 \<le> vr" "vr < r" "0 \<le> vc" "vc < c"
  shows "0 \<le> vr * c + vc" and "vr * c + vc < r * c"
proof -
  from assms show "0 \<le> vr * c + vc"
    by simp
  from assms have "vr + 1 \<le> r" and "0 \<le> c"
    by simp_all
  then have "(vr + 1) * c \<le> r * c"
    by (rule mult_right_mono)
  with assms(4) show "vr * c + vc < r * c"
    by (simp add: distrib_right)
qed

lemma isActive_cell:
  assumes "0 \<le> visualRow" "0 \<le> visualCol" "visualCol < cols config"
  shows "isActive config (visualRow * cols config + visualCol)
           \<longleftrightarrow> sequenceIndex config visualRow visualCol < totalFrames config"
proof -
  from assms have c: "0 < cols config"
    by simp
  have "0 \<le> visualRow * cols config + visualCol"
    using assms c by simp
  then have "jsRem (visualRow * cols config + visualCol) (cols config) = visualCol"
    using assms c by (simp add: jsRem_nonneg)
  moreover have "(visualRow * cols config + visualCol) div cols config = visualRow"
    using assms c by simp
  ultimately show ?thesis
    by (simp add: isActive_def)
qed

lemma overlay_cell:
  assumes r: "renderGridOverlay hasImage renderedWidth config = Some cells"
    and b: "0 \<le> visualRow" "visualRow < rows config" "0 \<le> visualCol" "visualCol < cols config"
  shows "int (length cells) = rows config * cols config
        \<and> (cells ! nat (visualRow * cols config + visualCol)
            \<longleftrightarrow> (if direction config = Column then visualCol * rows config + visualRow
                 else visualRow * cols config + visualCol) < totalFrames config)"
proof -
  let ?i = "visualRow * cols config + visualCol"
  from r have cells: "cells = map (isActive config) [0 .. rows config * cols config - 1]"
    by (simp add: renderGridOverlay_def split: if_splits)
  have lo: "0 \<le> ?i" and hi: "?i < rows config * cols config"
    using b by (rule cell_index_bounds)+
  from b have "0 < rows config * cols config"
    by simp
  then have len: "int (length cells) = rows config * cols config"
    by (simp add: cells)
  have "[0 .. rows config * cols config - 1] ! nat ?i = 0 + int (nat ?i)"
    using lo hi by (intro nth_upto) simp
  then have "[0 .. rows config * cols config - 1] ! nat ?i = ?i"
    using lo by simp
  moreover have "nat ?i < length [0 .. rows config * cols config - 1]"
    using lo hi by simp
  ultimately have "cells ! nat ?i = isActive config ?i"
    by (simp add: cells)
  with len show ?thesis
    using isActive_cell [OF b(1) b(3) b(4)] by (simp add: sequenceIndex_def)
qed

lemma overlay_rendered_iff:
  "renderGridOverlay hasImage renderedWidth config \<noteq> None
     \<longleftrightarrow> hasImage \<and> renderedWidth \<noteq> 0 \<and> 1 \<le> rows config \<and> 1 \<le> cols config"
  by (auto simp add: renderGridOverlay_def)

text \<open>
  Claim C6. The overlay is rendered exactly when an image is shown with a rendered width
  and rows and cols are at least 1. It then has one cell per grid position, and the cell
  at visual position \<open>(visualRow, visualCol)\<close> is active if and only if its sequence index
  under the configured direction, \<open>visualRow * cols + visualCol\<close> for rows and
  \<open>visualCol * rows + visualRow\<close> for columns, is below \<open>totalFrames\<close>. For rows 4, cols 4,
  totalFrames 14 and row-major direction exactly the cells 14 and 15 are inactive.
\<close>

theorem overlay_active_cells:
  "(renderGridOverlay hasImage renderedWidth config \<noteq> None
      \<longleftrightarrow> hasImage \<and> renderedWidth \<noteq> 0 \<and> 1 \<le> rows config \<and> 1 \<le> cols config)
   \<and> (hasImage \<and> renderedWidth \<noteq> 0 \<and> 1 \<le> rows config \<and> 1 \<le> cols config \<longrightarrow>
        (\<exists>cells. renderGridOverlay hasImage renderedWidth config = Some cells
           \<and> int (length cells) = rows config * cols config
           \<and> (\<forall>visualRow visualCol.
                 0 \<le> visualRow \<and> visualRow < rows config
                 \<and> 0 \<le> visualCol \<and> visualCol < cols config \<longrightarrow>
                 (cells ! nat (visualRow * cols config + visualCol)
                    \<longleftrightarrow> (if direction config = Column then visualCol * rows config + visualRow
                         else visualRow * cols config + visualCol) < totalFrames config))))
   \<and> (renderedWidth \<noteq> 0 \<longrightarrow>
        renderGridOverlay True renderedWidth
          (config\<lparr>rows := 4, cols := 4, totalFrames := 14, direction := Row\<rparr>)
        = Some [True, True, True, True, True, True, True, True,
                True, True, True, True, True, True, False, False])"
proof -
  have general: "\<exists>cells. renderGridOverlay hasImage renderedWidth config = Some cells
           \<and> int (length cells) = rows config * cols config
           \<and> (\<forall>visualRow visualCol.
                 0 \<le> visualRow \<and> visualRow < rows config
                 \<and> 0 \<le> visualCol \<and> visualCol < cols config \<longrightarrow>
                 (cells ! nat (visualRow * cols config + visualCol)
                    \<longleftrightarrow> (if direction config = Column then visualCol * rows config + visualRow
                         else visualRow * cols config + visualCol) < totalFrames config))"
    if h: "hasImage \<and> renderedWidth \<noteq> 0 \<and> 1 \<le> rows config \<and> 1 \<le> cols config"
  proof -
    from h obtain cells where r: "renderGridOverlay hasImage renderedWidth config = Some cells"
      using overlay_rendered_iff [of hasImage renderedWidth config] by auto
    from h have "0 < rows config * cols config"
      by simp
    with r have "int (length cells) = rows config * cols config"
      by (auto simp add: renderGridOverlay_def split: if_splits)
    with r show ?thesis
      using overlay_cell [OF r] by blast
  qed
  have scenario: "renderGridOverlay True renderedWidth
          (config\<lparr>rows := 4, cols := 4, totalFrames := 14, direction := Row\<rparr>)
        = Some [True, True, True, True, True, True, True, True,
                True, True, True, True, True, True, False, False]"
    if "renderedWidth \<noteq> 0"
    using that
    by (simp add: renderGridOverlay_def isActive_def sequenceIndex_def jsRem_def upto.simps)
  from overlay_rendered_iff [of hasImage renderedWidth config] general scenario show ?thesis
    by blast
qed

theorem overlay_active_cells_witness:
  "renderGridOverlay True 512 (INITIAL_CONFIG\<lparr>rows := 2, cols := 3, totalFrames := 5, direction := Column\<rparr>)
     = Some [True, True, True, True, True, False]
   \<and> (512::int) \<noteq> 0
   \<and> 1 \<le> rows (INITIAL_CONFIG\<lparr>rows := 2, cols := 3, totalFrames := 5, direction := Column\<rparr>)
   \<and> 1 \<le> cols (INITIAL_CONFIG\<lparr>rows := 2, cols := 3, totalFrames := 5, direction := Column\<rparr>)
   \<and> (0::int) \<le> 1
   \<and> 1 < rows (INITIAL_CONFIG\<lparr>rows := 2, cols := 3, totalFrames := 5, direction := Column\<rparr>)
   \<and> (0::int) \<le> 2
   \<and> 2 < cols (INITIAL_CONFIG\<lparr>rows := 2, cols := 3, totalFrames := 5, direction := Column\<rparr>)
   \<and> [True, True, True, True, True, False] ! nat (1 * 3 + 2) = ((2 * 2 + 1) < (5::int))"
  using overlay_active_cells [of True 512
      "INITIAL_CONFIG\<lparr>rows := 2, cols := 3, totalFrames := 5, direction := Column\<rparr>"]
  by (simp add: renderGridOverlay_def isActive_def sequenceIndex_def jsRem_def upto.simps
      INITIAL_CONFIG_def)

section \<open>Configuration updates\<close>

lemma one_le_mult:
  fixes a b :: int
  assumes "1 \<le> a" and "1 \<le> b"
  shows "1 \<le> a * b"
  using mult_mono [of 1 a 1 b] assms by simp

text \<open>
  Claim C8, as the code has it. \<^verbatim>\<open>updateConfig\<close> rejects nothing. From a configuration
  that satisfies the grid invariant it yields one that satisfies it exactly in these cases:
  rows or cols set to a value of at least 1 while \<open>totalFrames\<close> was \<open>rows * cols\<close> (it
  follows the grid) or still fits the new grid; \<open>totalFrames\<close> set to a value between 1
  and \<open>rows * cols\<close>; any other key.
\<close>

theorem updateConfig_keeps_invariant_iff:
  assumes "validGrid prev"
  shows "validGrid (updateConfig u prev) \<longleftrightarrow>
     (case u of
        Rows v \<Rightarrow> 1 \<le> v \<and> (totalFrames prev = rows prev * cols prev
                            \<or> totalFrames prev \<le> v * cols prev)
      | Cols v \<Rightarrow> 1 \<le> v \<and> (totalFrames prev = rows prev * cols prev
                            \<or> totalFrames prev \<le> rows prev * v)
      | TotalFrames v \<Rightarrow> 1 \<le> v \<and> v \<le> rows prev * cols prev
      | _ \<Rightarrow> True)"
proof (cases u)
  case (Rows v)
  from assms have c: "1 \<le> cols prev" and t: "1 \<le> totalFrames prev"
    by (simp_all add: validGrid_def)
  have "1 \<le> v * cols prev" if "1 \<le> v"
    using that c by (rule one_le_mult)
  with c t show ?thesis
    by (auto simp add: Rows updateConfig_def Let_def validGrid_def)
next
  case (Cols v)
  from assms have r: "1 \<le> rows prev" and t: "1 \<le> totalFrames prev"
    by (simp_all add: validGrid_def)
  have "1 \<le> rows prev * v" if "1 \<le> v"
    using r that by (rule one_le_mult)
  with r t show ?thesis
    by (auto simp add: Cols updateConfig_def Let_def validGrid_def)
next
  case (TotalFrames v)
  with assms show ?thesis
    by (auto simp add: updateConfig_def Let_def validGrid_def)
qed (use assms in \<open>simp_all add: updateConfig_def Let_def validGrid_def\<close>)

theorem updateConfig_keeps_invariant_iff_witness:
  "validGrid INITIAL_CONFIG
   \<and> validGrid (updateConfig (Rows 3) INITIAL_CONFIG)
   \<and> totalFrames (updateConfig (Rows 3) INITIAL_CONFIG) = 12"
  using updateConfig_keeps_invariant_iff [of INITIAL_CONFIG "Rows 3"]
  by (simp add: validGrid_def INITIAL_CONFIG_def updateConfig_def Let_def)

text \<open>
  Claim C8 as stated fails: with 14 of 4 by 4 frames selected, setting rows to 3 (also
  through the rows input) leaves 14 frames in a grid of 12 cells; the cols input passes
  a negative number on; and \<open>totalFrames\<close> can be set beyond the grid.
\<close>

theorem updateConfig_breaks_invariant:
  "validGrid (INITIAL_CONFIG\<lparr>totalFrames := 14\<rparr>)
   \<and> \<not> validGrid (updateConfig (Rows 3) (INITIAL_CONFIG\<lparr>totalFrames := 14\<rparr>))
   \<and> \<not> validGrid (onRowsChange (Some 3) (INITIAL_CONFIG\<lparr>totalFrames := 14\<rparr>))
   \<and> validGrid INITIAL_CONFIG
   \<and> \<not> validGrid (onColsChange (Some (- 2)) INITIAL_CONFIG)
   \<and> \<not> validGrid (updateConfig (TotalFrames 17) INITIAL_CONFIG)"
  by (simp add: validGrid_def INITIAL_CONFIG_def updateConfig_def Let_def onRowsChange_def
      onColsChange_def orOne_def)

text \<open>
  Claim C10. Setting rows or cols: if \<open>totalFrames\<close> was \<open>rows * cols\<close> before the call it
  becomes the new \<open>rows * cols\<close>, otherwise it keeps its value; the updated key has the
  new value and every other field (fps, scale, direction, autoTransparent, transparent,
  and the other grid dimension) is unchanged.
\<close>

theorem updateConfig_grid_update:
  "updateConfig (Rows v) prev =
     prev\<lparr>rows := v,
          totalFrames := (if totalFrames prev = rows prev * cols prev then v * cols prev
                          else totalFrames prev)\<rparr>
   \<and> updateConfig (Cols v) prev =
     prev\<lparr>cols := v,
          totalFrames := (if totalFrames prev = rows prev * cols prev then rows prev * v
                          else totalFrames prev)\<rparr>
   \<and> (\<forall>u. isGridKey u \<longrightarrow>
         fps (updateConfig u prev) = fps prev
         \<and> scale (updateConfig u prev) = scale prev
         \<and> direction (updateConfig u prev) = direction prev
         \<and> autoTransparent (updateConfig u prev) = autoTransparent prev
         \<and> transparent (updateConfig u prev) = transparent prev)"
proof -
  have "fps (updateConfig u prev) = fps prev
         \<and> scale (updateConfig u prev) = scale prev
         \<and> direction (updateConfig u prev) = direction prev
         \<and> autoTransparent (updateConfig u prev) = autoTransparent prev
         \<and> transparent (updateConfig u prev) = transparent prev" if "isGridKey u" for u
    using that by (cases u) (simp_all add: updateConfig_def Let_def)
  then show ?thesis
    by (simp add: updateConfig_def Let_def)
qed

theorem updateConfig_grid_update_witness:
  "isGridKey (Cols 5)
   \<and> updateConfig (Cols 5) INITIAL_CONFIG = INITIAL_CONFIG\<lparr>cols := 5, totalFrames := 20\<rparr>
   \<and> updateConfig (Rows 2) (INITIAL_CONFIG\<lparr>totalFrames := 14\<rparr>)
       = INITIAL_CONFIG\<lparr>rows := 2, totalFrames := 14\<rparr>
   \<and> fps (updateConfig (Cols 5) INITIAL_CONFIG) = 12"
  using updateConfig_grid_update [of 5 INITIAL_CONFIG]
    updateConfig_grid_update [of 2 "INITIAL_CONFIG\<lparr>totalFrames := 14\<rparr>"]
  by (simp add: INITIAL_CONFIG_def)

section \<open>Live preview: pause and resume\<close>

lemma frameIndexAt_formula:
  assumes "1 \<le> fps config" and "1 \<le> totalFrames config" and "0 \<le> time"
  shows "frameIndexAt config time
           = Some (\<lfloor>roundDouble (time / roundDouble (1000 / of_int (fps config)))\<rfloor>
                     mod totalFrames config)"
proof -
  from assms(1) have "(0::rat) \<le> 1000 / of_int (fps config)"
    by simp
  then have "0 \<le> roundDouble (1000 / of_int (fps config))"
    by (rule roundDouble_nonneg)
  with assms(3) have "0 \<le> time / roundDouble (1000 / of_int (fps config))"
    by simp
  then have "0 \<le> roundDouble (time / roundDouble (1000 / of_int (fps config)))"
    by (rule roundDouble_nonneg)
  then have "0 \<le> \<lfloor>roundDouble (time / roundDouble (1000 / of_int (fps config)))\<rfloor>"
    by simp
  then show ?thesis
    using assms by (simp add: frameIndexAt_def jsRem_nonneg)
qed

text \<open>
  The floor is taken of the double: at 30 frames per second the interval is the double
  nearest to \<open>100 / 3\<close>, slightly above it, and the timestamp 500 falls into slot 14,
  while the exact quotient \<open>500 / (1000 / 30)\<close> is 15.
\<close>

lemma frameIndexAt_examples:
  "frameIndexAt (INITIAL_CONFIG\<lparr>fps := 30\<rparr>) 500 = Some 14
   \<and> \<lfloor>(500::rat) / (1000 / 30)\<rfloor> = 15
   \<and> frameIndexAt (INITIAL_CONFIG\<lparr>fps := 10, totalFrames := 4\<rparr>) 1300 = Some 1"
  by code_simp

text \<open>
  Claim C9, as the code has it. Pausing keeps the displayed frame index and leaves no
  callback pending. Resuming keeps the index until the next callback, and that callback
  displays the frame of its own timestamp, \<open>floor(time / (1000 / fps)) mod totalFrames\<close>
  with both quotients taken in double arithmetic and the time counted from the page's
  time origin: the time spent paused is counted like any other, and the frozen index has
  no influence.
\<close>

theorem preview_pause_resume:
  "(isPlaying p \<longrightarrow>
      \<not> isPlaying (togglePlaying p) \<and> \<not> scheduled (togglePlaying p)
      \<and> currentFrame (togglePlaying p) = currentFrame p)
   \<and> (\<not> isPlaying p \<longrightarrow>
      isPlaying (togglePlaying p) \<and> scheduled (togglePlaying p)
      \<and> currentFrame (togglePlaying p) = currentFrame p
      \<and> currentFrame (animate config time (togglePlaying p)) = frameIndexAt config time)
   \<and> (1 \<le> fps config \<and> 1 \<le> totalFrames config \<and> 0 \<le> time \<longrightarrow>
      frameIndexAt config time
        = Some (\<lfloor>roundDouble (time / roundDouble (1000 / of_int (fps config)))\<rfloor>
                  mod totalFrames config))"
  using frameIndexAt_formula [of config time]
  by (simp add: togglePlaying_def animate_def)

theorem preview_pause_resume_witness:
  "isPlaying initialPlayer
   \<and> \<not> isPlaying (togglePlaying initialPlayer)
   \<and> currentFrame (togglePlaying initialPlayer) = Some 0
   \<and> currentFrame (animate (INITIAL_CONFIG\<lparr>fps := 10, totalFrames := 4\<rparr>) 700
        (togglePlaying (togglePlaying initialPlayer)))
      = frameIndexAt (INITIAL_CONFIG\<lparr>fps := 10, totalFrames := 4\<rparr>) 700
   \<and> 1 \<le> fps (INITIAL_CONFIG\<lparr>fps := 10, totalFrames := 4\<rparr>)
   \<and> 1 \<le> totalFrames (INITIAL_CONFIG\<lparr>fps := 10, totalFrames := 4\<rparr>)
   \<and> (0::rat) \<le> 700
   \<and> frameIndexAt (INITIAL_CONFIG\<lparr>fps := 10, totalFrames := 4\<rparr>) 700
       = Some (\<lfloor>roundDouble (700 / roundDouble (1000 / 10))\<rfloor> mod 4)"
  using preview_pause_resume [of initialPlayer "INITIAL_CONFIG\<lparr>fps := 10, totalFrames := 4\<rparr>" 700]
    preview_pause_resume [of "togglePlaying initialPlayer" "INITIAL_CONFIG\<lparr>fps := 10, totalFrames := 4\<rparr>" 700]
  by (simp add: togglePlaying_def initialPlayer_def INITIAL_CONFIG_def)

text \<open>
  Claim C9 as stated fails: at 10 frames per second and 4 frames, a player paused on the
  frame shown at 1000 ms (index 2) and resumed with its next callback at 1300 ms shows
  index 1.
\<close>

theorem preview_resume_jumps:
  "currentFrame (togglePlaying
      (animate (INITIAL_CONFIG\<lparr>fps := 10, totalFrames := 4\<rparr>) 1000 initialPlayer)) = Some 2
   \<and> currentFrame (animate (INITIAL_CONFIG\<lparr>fps := 10, totalFrames := 4\<rparr>) 1300
        (togglePlaying (togglePlaying
          (animate (INITIAL_CONFIG\<lparr>fps := 10, totalFrames := 4\<rparr>) 1000 initialPlayer)))) = Some 1
   \<and> currentFrame (animate (INITIAL_CONFIG\<lparr>fps := 10, totalFrames := 4\<rparr>) 1300
        (togglePlaying (togglePlaying
          (animate (INITIAL_CONFIG\<lparr>fps := 10, totalFrames := 4\<rparr>) 1000 initialPlayer))))
      \<noteq> currentFrame (togglePlaying
          (animate (INITIAL_CONFIG\<lparr>fps := 10, totalFrames := 4\<rparr>) 1000 initialPlayer))"
  by code_simp

end
